theory Spec2Isabelle
  imports Complex_Main "HOL-Library.Word"
begin

unbundle bit_operations_syntax

section \<open>The window-management core of dwm.c\<close>

text \<open>
  The embedding follows \<^verbatim>\<open>src/dwm.c\<close>.

  \<^item> C \<^verbatim>\<open>int\<close> is \<^typ>\<open>int\<close> (signed overflow is undefined in C and does not
    occur in the ranges the window manager works with); \<^verbatim>\<open>unsigned int\<close> is
    \<^typ>\<open>32 word\<close>, whose arithmetic wraps as the C arithmetic does.
  \<^item> C \<^verbatim>\<open>float\<close> values are read as the real numbers they denote. Every float
    operation of the source goes through a field of \<open>Float_ops\<close>, so that nothing
    proved below depends on how the machine rounds.
  \<^item> A \<^verbatim>\<open>Client*\<close> or \<^verbatim>\<open>Monitor*\<close> is the identity of the struct it points
    to (a natural number); the structs live in the stores \<open>cl\<close> and \<open>mon\<close>.
    A NULL-terminated chain (\<^verbatim>\<open>monitors\<close>/\<^verbatim>\<open>next\<close>,
    \<^verbatim>\<open>clients\<close>/\<^verbatim>\<open>next\<close>, \<^verbatim>\<open>stack\<close>/\<^verbatim>\<open>stack_next\<close>) is the list of
    its nodes from the head on.
  \<^item> Requests to the X server, the bar and its drawing context are outside the
    modelled state: a call that only talks to the server is the identity.
\<close>

type_synonym uint = "32 word"
type_synonym cref = nat
type_synonym mref = nat

subsection \<open>Structs\<close>

text \<open>
  \<^verbatim>\<open>struct Client\<close>. The geometry fields \<^verbatim>\<open>x, y, w, h\<close> are named
  \<open>cx, cy, cw, ch\<close>; \<^verbatim>\<open>next\<close> and \<^verbatim>\<open>stack_next\<close> are the chains of the
  owning monitor; \<^verbatim>\<open>window\<close> is the client's identity.
\<close>

record Client =
  name :: string
  mina :: real
  maxa :: real
  cx :: int
  cy :: int
  cw :: int
  ch :: int
  oldx :: int
  oldy :: int
  oldw :: int
  oldh :: int
  basew :: int
  baseh :: int
  incw :: int
  inch :: int
  maxw :: int
  maxh :: int
  minw :: int
  minh :: int
  border_width :: int
  old_border_width :: int
  tags :: uint
  isfixed :: int
  isfloating :: int
  isurgent :: int
  neverfocus :: int
  oldstate :: int
  isfullscreen :: int
  monitor :: mref

text \<open>
  The two layout functions of the source a \<^verbatim>\<open>Layout\<close> can point to; a NULL
  \<^verbatim>\<open>arrange\<close> pointer (the floating layout) is \<open>None\<close>.
\<close>

datatype arrange_fn = Tile | Monocle

record Layout =
  symbol :: string
  arrange :: "arrange_fn option"

text \<open>
  \<^verbatim>\<open>struct Monitor\<close>. \<^verbatim>\<open>by\<close> is named \<open>bar_y\<close>; the layout symbol
  buffer and the bar window are display state and not modelled.
\<close>

record Monitor =
  mfact :: real
  masters_count :: uint
  num :: int
  bar_y :: int
  mx :: int
  my :: int
  mw :: int
  mh :: int
  wx :: int
  wy :: int
  ww :: int
  wh :: int
  gappx :: int
  selected_tags_set :: uint
  tagset :: "uint list"
  showbar :: int
  topbar :: int
  clients :: "cref list"
  selected_client :: "cref option"
  stack :: "cref list"
  current_layout_index :: uint
  layouts :: "Layout list"

text \<open>The global variables of dwm.c that the modelled functions read or write.\<close>

record WM =
  monitors :: "mref list"
  selected_monitor :: mref
  mon :: "mref \<Rightarrow> Monitor"
  cl :: "cref \<Rightarrow> Client"
  sw :: int
  sh :: int
  bh :: int
  root_window :: nat

text \<open>\<^verbatim>\<open>struct Rule\<close>; a NULL string pointer is \<open>None\<close>.\<close>

record Rule =
  rule_class :: "string option"
  rule_instance :: "string option"
  rule_title :: "string option"
  rule_tags :: uint
  rule_isfloating :: int
  rule_monitor :: int

text \<open>
  The float expressions of the source, one field each, as the machine evaluates
  them (with its rounding):
  \<^item> \<open>mfact_add a b\<close> is \<^verbatim>\<open>arg->f + selected_monitor->mfact\<close>, and
    \<open>mfact_abs a\<close> is \<^verbatim>\<open>arg->f - 1.0\<close>, each as stored in a \<^verbatim>\<open>float\<close>
    (\<^verbatim>\<open>setmfact\<close>);
  \<^item> \<open>ratio a b\<close> is \<^verbatim>\<open>(float)a / b\<close> for \<open>b \<noteq> 0\<close>, and \<open>scale a r\<close> is
    \<^verbatim>\<open>a * r + 0.5\<close> converted to \<^verbatim>\<open>int\<close> (\<^verbatim>\<open>applysizehints\<close>);
  \<^item> \<open>master_width a r\<close> is \<^verbatim>\<open>a * r\<close> converted to \<^verbatim>\<open>unsigned int\<close>
    (\<^verbatim>\<open>tile\<close>).
  Comparisons of floats are comparisons of the reals they denote.
\<close>

record Float_ops =
  mfact_add :: "real \<Rightarrow> real \<Rightarrow> real"
  mfact_abs :: "real \<Rightarrow> real"
  ratio :: "int \<Rightarrow> int \<Rightarrow> real"
  scale :: "int \<Rightarrow> real \<Rightarrow> int"
  master_width :: "int \<Rightarrow> real \<Rightarrow> uint"

text \<open>
  \<^verbatim>\<open>config.h\<close> is not among the sources. What the modelled functions take
  from it is a parameter: the number of tags \<^verbatim>\<open>LENGTH(tags)\<close>, the flag
  \<^verbatim>\<open>resizehints\<close>, the table \<^verbatim>\<open>rules\<close>, and the values a new monitor starts
  with (\<^verbatim>\<open>mfact\<close>, \<^verbatim>\<open>DEFAULT_MASTERS_COUNT\<close>, \<^verbatim>\<open>showbar\<close>, \<^verbatim>\<open>topbar\<close>,
  \<^verbatim>\<open>gappx\<close> and \<^verbatim>\<open>layouts[0]\<close>, named \<open>cfg_mfact\<close> to \<open>cfg_layout\<close>). The float
  operations of the machine travel with it.
\<close>

record Config =
  ntags :: nat
  resizehints :: int
  rules :: "Rule list"
  cfg_mfact :: real
  cfg_masters_count :: uint
  cfg_showbar :: int
  cfg_topbar :: int
  cfg_gappx :: int
  cfg_layout :: Layout
  fl :: Float_ops

text \<open>Conversion of a real to an integer as C does it: towards zero.\<close>

definition trunc :: "real \<Rightarrow> int" where
  "trunc r = (if r < 0 then - \<lfloor>- r\<rfloor> else \<lfloor>r\<rfloor>)"

text \<open>The float operations computed without rounding.\<close>

definition exact_float :: Float_ops where
  "exact_float = \<lparr>mfact_add = (\<lambda>a b. a + b), mfact_abs = (\<lambda>a. a - 1),
     ratio = (\<lambda>a b. real_of_int a / real_of_int b),
     scale = (\<lambda>a r. trunc (real_of_int a * r + 1 / 2)),
     master_width = (\<lambda>a r. word_of_int (trunc (real_of_int a * r)))\<rparr>"

subsection \<open>Macros\<close>

text \<open>
  Modelled from the spec: \<^verbatim>\<open>util.h\<close>, which defines \<^verbatim>\<open>MAX\<close> and
  \<^verbatim>\<open>MIN\<close>, is not among the sources. They are named \<open>cMAX\<close> and \<open>cMIN\<close>
  here and are the usual comparison macros
  \<^verbatim>\<open>((A) > (B) ? (A) : (B))\<close> and \<^verbatim>\<open>((A) < (B) ? (A) : (B))\<close> (the spec's
  clamping), at the type the C operands are converted to.
\<close>

definition cMAX :: "'a::linorder \<Rightarrow> 'a \<Rightarrow> 'a" where
  "cMAX a b = (if a > b then a else b)"

definition cMIN :: "'a::linorder \<Rightarrow> 'a \<Rightarrow> 'a" where
  "cMIN a b = (if a < b then a else b)"

text \<open>\<^verbatim>\<open>TAGMASK = (1 << LENGTH(tags)) - 1\<close>, at 32 bits.\<close>

definition TAGMASK :: "Config \<Rightarrow> uint" where
  "TAGMASK cfg = push_bit (ntags cfg) 1 - 1"

definition WIDTH :: "Client \<Rightarrow> int" where
  "WIDTH c = cw c + 2 * border_width c"

definition HEIGHT :: "Client \<Rightarrow> int" where
  "HEIGHT c = ch c + 2 * border_width c"

subsection \<open>Tags and layouts of a monitor\<close>

definition current_tags :: "Monitor \<Rightarrow> uint" where
  "current_tags m = tagset m ! unat (selected_tags_set m)"

definition set_tags :: "uint \<Rightarrow> Monitor \<Rightarrow> Monitor" where
  "set_tags t m = m\<lparr>tagset := (tagset m)[unat (selected_tags_set m) := t]\<rparr>"

definition swap_selected_tags :: "Monitor \<Rightarrow> Monitor" where
  "swap_selected_tags m = m\<lparr>selected_tags_set := selected_tags_set m XOR 1\<rparr>"

definition current_layout :: "Monitor \<Rightarrow> Layout" where
  "current_layout m = layouts m ! unat (current_layout_index m)"

definition set_layout_index :: "uint \<Rightarrow> Monitor \<Rightarrow> Monitor" where
  "set_layout_index i m = m\<lparr>current_layout_index := i\<rparr>"

text \<open>\<^verbatim>\<open>ISVISIBLE(C)\<close>: \<^verbatim>\<open>C->tags & current_tags(C->monitor)\<close> is not zero.\<close>

definition ISVISIBLE :: "WM \<Rightarrow> cref \<Rightarrow> bool" where
  "ISVISIBLE s c = (tags (cl s c) AND current_tags (mon s (monitor (cl s c))) \<noteq> 0)"

text \<open>
  \<^verbatim>\<open>createmon()\<close>: the struct comes zeroed from \<^verbatim>\<open>ecalloc\<close>; both tag-sets are 1
  and every tag has the first layout of the configuration.
\<close>

definition createmon :: "Config \<Rightarrow> Monitor" where
  "createmon cfg = \<lparr>mfact = cfg_mfact cfg, masters_count = cfg_masters_count cfg, num = 0,
     bar_y = 0, mx = 0, my = 0, mw = 0, mh = 0, wx = 0, wy = 0, ww = 0, wh = 0,
     gappx = cfg_gappx cfg, selected_tags_set = 0, tagset = [1, 1],
     showbar = cfg_showbar cfg, topbar = cfg_topbar cfg,
     clients = [], selected_client = None, stack = [],
     current_layout_index = 0, layouts = replicate (ntags cfg) (cfg_layout cfg)\<rparr>"

subsection \<open>Walking the chains\<close>

text \<open>
  \<^verbatim>\<open>find_first_visible_client_in_stack(start)\<close>, on the chain that starts at
  \<^verbatim>\<open>start\<close>.
\<close>

fun find_first_visible_client_in_stack :: "WM \<Rightarrow> cref list \<Rightarrow> cref option" where
  "find_first_visible_client_in_stack s [] = None"
| "find_first_visible_client_in_stack s (c # cs) =
     (if \<not> ISVISIBLE s c then find_first_visible_client_in_stack s cs else Some c)"

text \<open>\<^verbatim>\<open>nexttiled(c)\<close>: the rest of the chain from the first tiled, visible client on.\<close>

fun nexttiled :: "WM \<Rightarrow> cref list \<Rightarrow> cref list" where
  "nexttiled s [] = []"
| "nexttiled s (c # cs) =
     (if isfloating (cl s c) \<noteq> 0 \<or> \<not> ISVISIBLE s c then nexttiled s cs else c # cs)"

text \<open>
  \<^verbatim>\<open>find_previous_monitor(current_monitor)\<close>, walking the chain \<open>ms\<close> from
  \<^verbatim>\<open>monitors\<close>: it stops at the first monitor whose \<^verbatim>\<open>next\<close> is
  \<^verbatim>\<open>current_monitor\<close> (NULL is \<open>None\<close>), or at NULL.
\<close>

fun find_previous_monitor :: "mref list \<Rightarrow> mref option \<Rightarrow> mref option" where
  "find_previous_monitor [] cur = None"
| "find_previous_monitor [m] cur =
     (if None \<noteq> cur then None else Some m)"
| "find_previous_monitor (m # n # ms) cur =
     (if Some n \<noteq> cur then find_previous_monitor (n # ms) cur else Some m)"



subsection \<open>Size hints and resizing\<close>

text \<open>The remainder of C's integer division, which truncates towards zero.\<close>

definition c_rem :: "int \<Rightarrow> int \<Rightarrow> int" where
  "c_rem a b = sgn a * (\<bar>a\<bar> mod \<bar>b\<bar>)"

text \<open>
  \<^verbatim>\<open>a < (float)n / d\<close> for a finite float \<open>a\<close>: with \<open>d = 0\<close> the quotient is an
  infinity with the sign of \<open>n\<close>, or not a number when \<open>n = 0\<close>.
\<close>

definition lt_ratio :: "Float_ops \<Rightarrow> real \<Rightarrow> int \<Rightarrow> int \<Rightarrow> bool" where
  "lt_ratio F a n d = (if d = 0 then 0 < n else a < ratio F n d)"

text \<open>
  The block of \<^verbatim>\<open>applysizehints\<close> that moves the rectangle back towards the screen
  (\<^verbatim>\<open>interact\<close>) or the monitor's window area; \<open>w\<close> and \<open>h\<close> are already at least 1.
\<close>

definition hints_position :: "WM \<Rightarrow> Client \<Rightarrow> Monitor \<Rightarrow> int \<Rightarrow> int \<times> int \<times> int \<times> int \<Rightarrow> int \<times> int" where
  "hints_position s c m interact r =
     (case r of (x0, y0, w0, h0) \<Rightarrow>
       if interact \<noteq> 0 then
         (let x1 = (if x0 > sw s then sw s - WIDTH c else x0);
              y1 = (if y0 > sh s then sh s - HEIGHT c else y0);
              x2 = (if x1 + w0 + 2 * border_width c < 0 then 0 else x1);
              y2 = (if y1 + h0 + 2 * border_width c < 0 then 0 else y1)
          in (x2, y2))
       else
         (let x1 = (if x0 \<ge> wx m + ww m then wx m + ww m - WIDTH c else x0);
              y1 = (if y0 \<ge> wy m + wh m then wy m + wh m - HEIGHT c else y0);
              x2 = (if x1 + w0 + 2 * border_width c \<le> wx m then wx m else x1);
              y2 = (if y1 + h0 + 2 * border_width c \<le> wy m then wy m else y1)
          in (x2, y2)))"

text \<open>
  The ICCCM 4.1.2.3 block of \<^verbatim>\<open>applysizehints\<close>: base size, aspect limits,
  increments, minimum and maximum.
\<close>

definition hints_size :: "Float_ops \<Rightarrow> Client \<Rightarrow> int \<times> int \<Rightarrow> int \<times> int" where
  "hints_size F c r =
     (case r of (w0, h0) \<Rightarrow>
       let baseismin = (basew c = minw c \<and> baseh c = minh c);
           w1 = (if \<not> baseismin then w0 - basew c else w0);
           h1 = (if \<not> baseismin then h0 - baseh c else h0);
           w2 = (if mina c > 0 \<and> maxa c > 0 \<and> lt_ratio F (maxa c) w1 h1
                 then scale F h1 (maxa c) else w1);
           h2 = (if mina c > 0 \<and> maxa c > 0 \<and> \<not> lt_ratio F (maxa c) w1 h1
                    \<and> lt_ratio F (mina c) h1 w1
                 then scale F w1 (mina c) else h1);
           w3 = (if baseismin then w2 - basew c else w2);
           h3 = (if baseismin then h2 - baseh c else h2);
           w4 = (if incw c \<noteq> 0 then w3 - c_rem w3 (incw c) else w3);
           h4 = (if inch c \<noteq> 0 then h3 - c_rem h3 (inch c) else h3);
           w5 = cMAX (w4 + basew c) (minw c);
           h5 = cMAX (h4 + baseh c) (minh c);
           w6 = (if maxw c \<noteq> 0 then cMIN w5 (maxw c) else w5);
           h6 = (if maxh c \<noteq> 0 then cMIN h5 (maxh c) else h5)
       in (w6, h6))"

text \<open>
  \<^verbatim>\<open>applysizehints(c, &x, &y, &w, &h, interact)\<close>: the returned flag and the
  adjusted rectangle \<open>(x, y, w, h)\<close>.
\<close>

definition applysizehints :: "Config \<Rightarrow> WM \<Rightarrow> cref \<Rightarrow> int \<times> int \<times> int \<times> int \<Rightarrow> int \<Rightarrow> bool \<times> int \<times> int \<times> int \<times> int" where
  "applysizehints cfg s c r interact =
     (case r of (x0, y0, w0, h0) \<Rightarrow>
       let m = mon s (monitor (cl s c));
           w1 = cMAX 1 w0;
           h1 = cMAX 1 h0;
           (x1, y1) = hints_position s (cl s c) m interact (x0, y0, w1, h1);
           h2 = (if h1 < bh s then bh s else h1);
           w2 = (if w1 < bh s then bh s else w1);
           (w3, h3) = (if resizehints cfg \<noteq> 0 \<or> isfloating (cl s c) \<noteq> 0
                          \<or> arrange (current_layout m) = None
                       then hints_size (fl cfg) (cl s c) (w2, h2) else (w2, h2))
       in (x1 \<noteq> cx (cl s c) \<or> y1 \<noteq> cy (cl s c) \<or> w3 \<noteq> cw (cl s c) \<or> h3 \<noteq> ch (cl s c),
           x1, y1, w3, h3))"

text \<open>\<^verbatim>\<open>resizeclient(c, x, y, w, h)\<close>.\<close>

definition resizeclient :: "cref \<Rightarrow> int \<times> int \<times> int \<times> int \<Rightarrow> WM \<Rightarrow> WM" where
  "resizeclient c r s =
     (case r of (x0, y0, w0, h0) \<Rightarrow>
       s\<lparr>cl := (cl s)(c := (cl s c)\<lparr>oldx := cx (cl s c), cx := x0,
                                   oldy := cy (cl s c), cy := y0,
                                   oldw := cw (cl s c), cw := w0,
                                   oldh := ch (cl s c), ch := h0\<rparr>)\<rparr>)"

text \<open>\<^verbatim>\<open>resize(c, x, y, w, h, interact)\<close>.\<close>

definition resize :: "Config \<Rightarrow> cref \<Rightarrow> int \<times> int \<times> int \<times> int \<Rightarrow> int \<Rightarrow> WM \<Rightarrow> WM" where
  "resize cfg c r interact s =
     (case applysizehints cfg s c r interact of
        (changed, r') \<Rightarrow> if changed then resizeclient c r' s else s)"

subsection \<open>Arranging a monitor\<close>

text \<open>
  \<^verbatim>\<open>showhide(c)\<close> on the chain \<^verbatim>\<open>c, c->stack_next, ...\<close>. Moving a window is a
  request to the server; what remains is the \<^verbatim>\<open>resize\<close> of the visible clients
  that float or live under a layout without an arrange function.
\<close>

fun showhide :: "Config \<Rightarrow> cref list \<Rightarrow> WM \<Rightarrow> WM" where
  "showhide cfg [] s = s"
| "showhide cfg (c # cs) s =
     (if ISVISIBLE s c then
        showhide cfg cs
          (if (arrange (current_layout (mon s (monitor (cl s c)))) = None \<or> isfloating (cl s c) \<noteq> 0)
               \<and> isfullscreen (cl s c) = 0
           then resize cfg c (cx (cl s c), cy (cl s c), cw (cl s c), ch (cl s c)) 0 s
           else s)
      else showhide cfg cs s)"

text \<open>\<^verbatim>\<open>count_tiled_clients(monitor)\<close>, counting along the chain \<open>cs\<close>.\<close>

lemma length_nexttiled: "length (nexttiled s cs) \<le> length cs"
  by (induction cs) auto

function count_tiled_loop :: "WM \<Rightarrow> cref list \<Rightarrow> uint \<Rightarrow> uint" where
  "count_tiled_loop s [] n = n"
| "count_tiled_loop s (c # rest) n = count_tiled_loop s (nexttiled s rest) (n + 1)"
  by pat_completeness auto

termination count_tiled_loop
proof (relation "measure (\<lambda>(s, cs, n). length cs)")
  show "wf (measure (\<lambda>(s, cs, n). length cs))" by simp
next
  fix s :: WM and n :: uint and c rest
  show "((s, nexttiled s rest, n + 1), (s, c # rest, n)) \<in> measure (\<lambda>(s, cs, n). length cs)"
    using length_nexttiled [of s rest] by simp
qed

definition count_tiled_clients :: "WM \<Rightarrow> mref \<Rightarrow> uint" where
  "count_tiled_clients s m = count_tiled_loop s (nexttiled s (clients (mon s m))) 0"

text \<open>\<^verbatim>\<open>monocle(m)\<close>; \<open>cs\<close> is the chain from the current tiled client on.\<close>

function monocle_loop :: "Config \<Rightarrow> mref \<Rightarrow> cref list \<Rightarrow> WM \<Rightarrow> WM" where
  "monocle_loop cfg m [] s = s"
| "monocle_loop cfg m (c # rest) s =
     (let s' = resize cfg c (wx (mon s m), wy (mon s m),
                 ww (mon s m) - 2 * border_width (cl s c),
                 wh (mon s m) - 2 * border_width (cl s c)) 0 s
      in monocle_loop cfg m (nexttiled s' rest) s')"
  by pat_completeness auto

termination monocle_loop
proof (relation "measure (\<lambda>(cfg, m, cs, s). length cs)")
  show "wf (measure (\<lambda>(cfg, m, cs, s). length cs))" by simp
next
  fix cfg :: Config and m :: mref and s s' :: WM and c rest
  show "((cfg, m, nexttiled s' rest, s'), (cfg, m, c # rest, s))
      \<in> measure (\<lambda>(cfg, m, cs, s). length cs)"
    using length_nexttiled [of s' rest] by simp
qed

definition monocle :: "Config \<Rightarrow> mref \<Rightarrow> WM \<Rightarrow> WM" where
  "monocle cfg m s = monocle_loop cfg m (nexttiled s (clients (mon s m))) s"

text \<open>
  The loop of \<^verbatim>\<open>tile(m)\<close>. \<open>n\<close>, \<open>lmw\<close>, \<open>lmy\<close>, \<open>lty\<close> and \<open>i\<close> are the unsigned
  locals \<^verbatim>\<open>n\<close>, \<^verbatim>\<open>mw\<close>, \<^verbatim>\<open>my\<close>, \<^verbatim>\<open>ty\<close> and \<^verbatim>\<open>client_index\<close>; an \<^verbatim>\<open>int\<close>
  operand of an unsigned operation is converted with \<open>word_of_int\<close>, and an unsigned
  argument of \<^verbatim>\<open>resize\<close> is read back as an \<^verbatim>\<open>int\<close> with \<open>sint\<close>.
\<close>

function tile_loop :: "Config \<Rightarrow> mref \<Rightarrow> uint \<Rightarrow> uint \<Rightarrow> uint \<Rightarrow> uint \<Rightarrow> uint \<Rightarrow> cref list \<Rightarrow> WM \<Rightarrow> WM" where
  "tile_loop cfg m n lmw lmy lty i [] s = s"
| "tile_loop cfg m n lmw lmy lty i (c # rest) s =
     (if i < masters_count (mon s m) then
        (let h = (word_of_int (wh (mon s m)) - lmy) div (cMIN n (masters_count (mon s m)) - i)
                   - word_of_int (gappx (mon s m));
             s' = resize cfg c
                    (wx (mon s m) + gappx (mon s m),
                     sint (word_of_int (wy (mon s m)) + lmy),
                     sint (lmw - word_of_int (2 * border_width (cl s c)) - word_of_int (gappx (mon s m))),
                     sint (h - word_of_int (2 * border_width (cl s c)))) 0 s;
             lmy' = lmy + word_of_int (HEIGHT (cl s' c) + gappx (mon s' m))
         in tile_loop cfg m n lmw lmy' lty (i + 1) (nexttiled s' rest) s')
      else
        (let h = (word_of_int (wh (mon s m)) - lty) div (n - i) - word_of_int (gappx (mon s m));
             s' = resize cfg c
                    (sint (word_of_int (wx (mon s m)) + lmw + word_of_int (gappx (mon s m))),
                     sint (word_of_int (wy (mon s m)) + lty),
                     sint (word_of_int (ww (mon s m)) - lmw - word_of_int (2 * border_width (cl s c))
                             - word_of_int (2 * gappx (mon s m))),
                     sint (h - word_of_int (2 * border_width (cl s c)))) 0 s;
             lty' = lty + word_of_int (HEIGHT (cl s' c) + gappx (mon s' m))
         in tile_loop cfg m n lmw lmy lty' (i + 1) (nexttiled s' rest) s'))"
  by pat_completeness auto

termination tile_loop
proof (relation "measure (\<lambda>(cfg, m, n, lmw, lmy, lty, i, cs, s). length cs)")
  show "wf (measure (\<lambda>(cfg, m, n, lmw, lmy, lty, i, cs, s). length cs))" by simp
next
  fix cfg :: Config and m :: mref and n lmw lmy lty i :: uint
    and s s' :: WM and c rest and lmy' :: uint
  show "((cfg, m, n, lmw, lmy', lty, i + 1, nexttiled s' rest, s'),
        (cfg, m, n, lmw, lmy, lty, i, c # rest, s))
      \<in> measure (\<lambda>(cfg, m, n, lmw, lmy, lty, i, cs, s). length cs)"
    using length_nexttiled [of s' rest] by simp
next
  fix cfg :: Config and m :: mref and n lmw lmy lty i :: uint
    and s s' :: WM and c rest and lty' :: uint
  show "((cfg, m, n, lmw, lmy, lty', i + 1, nexttiled s' rest, s'),
        (cfg, m, n, lmw, lmy, lty, i, c # rest, s))
      \<in> measure (\<lambda>(cfg, m, n, lmw, lmy, lty, i, cs, s). length cs)"
    using length_nexttiled [of s' rest] by simp
qed

text \<open>\<^verbatim>\<open>tile(m)\<close>.\<close>

definition tile :: "Config \<Rightarrow> mref \<Rightarrow> WM \<Rightarrow> WM" where
  "tile cfg m s =
     (let n = count_tiled_clients s m in
      if n = 0 then s
      else
        (let lmw = (if n > masters_count (mon s m)
                    then (if masters_count (mon s m) \<noteq> 0
                          then master_width (fl cfg) (ww (mon s m)) (mfact (mon s m)) else 0)
                    else word_of_int (ww (mon s m) - gappx (mon s m)))
         in tile_loop cfg m n lmw (word_of_int (gappx (mon s m))) (word_of_int (gappx (mon s m))) 0
              (nexttiled s (clients (mon s m))) s))"

text \<open>\<^verbatim>\<open>arrangemon(monitor)\<close>: the call through the layout's function pointer.\<close>

definition arrangemon :: "Config \<Rightarrow> mref \<Rightarrow> WM \<Rightarrow> WM" where
  "arrangemon cfg m s =
     (case arrange (current_layout (mon s m)) of
        None \<Rightarrow> s
      | Some Tile \<Rightarrow> tile cfg m s
      | Some Monocle \<Rightarrow> monocle cfg m s)"

text \<open>
  \<^verbatim>\<open>arrange(monitor)\<close> for one monitor (\<open>Some m\<close>) or, with NULL, for all of them;
  it is named \<open>arrange_wm\<close>, \<open>arrange\<close> being the field of \<open>Layout\<close>.
  \<^verbatim>\<open>restack\<close> only talks to the server.
\<close>

fun arrange_all :: "Config \<Rightarrow> mref list \<Rightarrow> WM \<Rightarrow> WM" where
  "arrange_all cfg [] s = s"
| "arrange_all cfg (m # ms) s =
     arrange_all cfg ms (arrangemon cfg m (showhide cfg (stack (mon s m)) s))"

definition arrange_wm :: "Config \<Rightarrow> mref option \<Rightarrow> WM \<Rightarrow> WM" where
  "arrange_wm cfg mo s =
     (case mo of
        Some m \<Rightarrow> arrangemon cfg m (showhide cfg (stack (mon s m)) s)
      | None \<Rightarrow> arrange_all cfg (monitors s) s)"

subsection \<open>The client list and the focus stack\<close>

definition upd_mon :: "mref \<Rightarrow> (Monitor \<Rightarrow> Monitor) \<Rightarrow> WM \<Rightarrow> WM" where
  "upd_mon m f s = s\<lparr>mon := (mon s)(m := f (mon s m))\<rparr>"

definition upd_cl :: "cref \<Rightarrow> (Client \<Rightarrow> Client) \<Rightarrow> WM \<Rightarrow> WM" where
  "upd_cl c f s = s\<lparr>cl := (cl s)(c := f (cl s c))\<rparr>"

text \<open>\<^verbatim>\<open>attach(c)\<close> and \<^verbatim>\<open>attachstack(c)\<close>: \<open>c\<close> becomes the head of the chain.\<close>

definition attach :: "cref \<Rightarrow> WM \<Rightarrow> WM" where
  "attach c s = upd_mon (monitor (cl s c)) (\<lambda>m. m\<lparr>clients := c # clients m\<rparr>) s"

definition attachstack :: "cref \<Rightarrow> WM \<Rightarrow> WM" where
  "attachstack c s = upd_mon (monitor (cl s c)) (\<lambda>m. m\<lparr>stack := c # stack m\<rparr>) s"

text \<open>
  \<^verbatim>\<open>detach_client(c)\<close> and \<^verbatim>\<open>detachstack(c)\<close> unlink the first occurrence of
  \<open>c\<close> in the chain of its monitor. (For a client that is not in the chain the C
  code stores the client's own successor behind the last node; the functions below
  are used on clients of the chain only.)
\<close>

definition detach_client :: "cref \<Rightarrow> WM \<Rightarrow> WM" where
  "detach_client c s = upd_mon (monitor (cl s c)) (\<lambda>m. m\<lparr>clients := remove1 c (clients m)\<rparr>) s"

definition detachstack :: "cref \<Rightarrow> WM \<Rightarrow> WM" where
  "detachstack c s =
     (let m = monitor (cl s c);
          s1 = upd_mon m (\<lambda>M. M\<lparr>stack := remove1 c (stack M)\<rparr>) s
      in if Some c = selected_client (mon s1 m)
         then upd_mon m (\<lambda>M. M\<lparr>selected_client :=
                find_first_visible_client_in_stack s1 (stack (mon s1 m))\<rparr>) s1
         else s1)"

text \<open>\<^verbatim>\<open>seturgent(c, urg)\<close>; the WM hints live on the server.\<close>

definition seturgent :: "cref \<Rightarrow> int \<Rightarrow> WM \<Rightarrow> WM" where
  "seturgent c urg s = upd_cl c (\<lambda>C. C\<lparr>isurgent := urg\<rparr>) s"

text \<open>
  \<^verbatim>\<open>focus(c)\<close>, \<open>None\<close> for NULL. \<^verbatim>\<open>unfocus\<close>, \<^verbatim>\<open>grabbuttons\<close>,
  \<^verbatim>\<open>setfocus\<close> and \<^verbatim>\<open>drawbars\<close> only talk to the server.
\<close>

definition focus :: "cref option \<Rightarrow> WM \<Rightarrow> WM" where
  "focus co s =
     (let co' = (if co = None \<or> \<not> ISVISIBLE s (the co)
                 then find_first_visible_client_in_stack s (stack (mon s (selected_monitor s)))
                 else co)
      in case co' of
           Some c \<Rightarrow>
             (let s1 = (if monitor (cl s c) \<noteq> selected_monitor s
                        then s\<lparr>selected_monitor := monitor (cl s c)\<rparr> else s);
                  s2 = (if isurgent (cl s1 c) \<noteq> 0 then seturgent c 0 s1 else s1);
                  s3 = attachstack c (detachstack c s2)
              in upd_mon (selected_monitor s3) (\<lambda>M. M\<lparr>selected_client := Some c\<rparr>) s3)
         | None \<Rightarrow> upd_mon (selected_monitor s) (\<lambda>M. M\<lparr>selected_client := None\<rparr>) s)"

subsection \<open>Commands on tags\<close>

text \<open>
  \<^verbatim>\<open>(1 << index) & TAGMASK\<close>. The shift is taken at 32 bits; C defines it for
  \<open>index < 31\<close> only.
\<close>

definition tag_bit :: "Config \<Rightarrow> uint \<Rightarrow> uint" where
  "tag_bit cfg index = push_bit (unat index) 1 AND TAGMASK cfg"

text \<open>\<^verbatim>\<open>view(arg)\<close> with \<^verbatim>\<open>arg->ui = index\<close>.\<close>

definition view :: "Config \<Rightarrow> uint \<Rightarrow> WM \<Rightarrow> WM" where
  "view cfg index s =
     (let requested_tag = tag_bit cfg index in
      if requested_tag = current_tags (mon s (selected_monitor s)) then s
      else
        (let s1 = upd_mon (selected_monitor s) swap_selected_tags s;
             s2 = (if requested_tag \<noteq> 0
                   then upd_mon (selected_monitor s1) (set_tags requested_tag) s1 else s1);
             s3 = upd_mon (selected_monitor s2) (set_layout_index index) s2;
             s4 = focus None s3
         in arrange_wm cfg (Some (selected_monitor s4)) s4))"

text \<open>\<^verbatim>\<open>toggleview(arg)\<close>.\<close>

definition toggleview :: "Config \<Rightarrow> uint \<Rightarrow> WM \<Rightarrow> WM" where
  "toggleview cfg index s =
     (let updated_tags = current_tags (mon s (selected_monitor s)) XOR tag_bit cfg index in
      if updated_tags \<noteq> 0 then
        (let s1 = upd_mon (selected_monitor s) (set_tags updated_tags) s;
             s2 = focus None s1
         in arrange_wm cfg (Some (selected_monitor s2)) s2)
      else s)"

text \<open>\<^verbatim>\<open>tag(arg)\<close>.\<close>

definition tag :: "Config \<Rightarrow> uint \<Rightarrow> WM \<Rightarrow> WM" where
  "tag cfg index s =
     (let tags_to_move_to = tag_bit cfg index in
      case selected_client (mon s (selected_monitor s)) of
        None \<Rightarrow> s
      | Some c \<Rightarrow>
          if tags_to_move_to \<noteq> 0 then
            (let s1 = upd_cl c (\<lambda>C. C\<lparr>tags := tags_to_move_to\<rparr>) s;
                 s2 = focus None s1
             in arrange_wm cfg (Some (selected_monitor s2)) s2)
          else s)"

text \<open>\<^verbatim>\<open>toggletag(arg)\<close>.\<close>

definition toggletag :: "Config \<Rightarrow> uint \<Rightarrow> WM \<Rightarrow> WM" where
  "toggletag cfg index s =
     (case selected_client (mon s (selected_monitor s)) of
        None \<Rightarrow> s
      | Some c \<Rightarrow>
          (let updated_tags = tags (cl s c) XOR tag_bit cfg index in
           if updated_tags \<noteq> 0 then
             (let s1 = upd_cl c (\<lambda>C. C\<lparr>tags := updated_tags\<rparr>) s;
                  s2 = focus None s1
              in arrange_wm cfg (Some (selected_monitor s2)) s2)
           else s))"

text \<open>\<^verbatim>\<open>sendmon(c, m)\<close>.\<close>

definition sendmon :: "Config \<Rightarrow> cref \<Rightarrow> mref \<Rightarrow> WM \<Rightarrow> WM" where
  "sendmon cfg c m s =
     (if monitor (cl s c) = m then s
      else
        (let s1 = detachstack c (detach_client c s);
             s2 = upd_cl c (\<lambda>C. C\<lparr>monitor := m\<rparr>) s1;
             s3 = upd_cl c (\<lambda>C. C\<lparr>tags := current_tags (mon s2 m)\<rparr>) s2;
             s4 = attachstack c (attach c s3)
         in arrange_wm cfg None (focus None s4)))"


subsection \<open>Commands on the layout\<close>


text \<open>
  \<^verbatim>\<open>change_masters_count(arg)\<close> with \<^verbatim>\<open>arg->i = i\<close>. The counter is unsigned:
  \<^verbatim>\<open>arg->i\<close> is converted to \<^verbatim>\<open>unsigned int\<close> for the addition, and
  \<^verbatim>\<open>MAX\<close> compares unsigned values.
\<close>

definition change_masters_count :: "Config \<Rightarrow> int \<Rightarrow> WM \<Rightarrow> WM" where
  "change_masters_count cfg i s =
     arrange_wm cfg (Some (selected_monitor s))
       (upd_mon (selected_monitor s)
          (\<lambda>M. M\<lparr>masters_count := cMAX (masters_count M + word_of_int i) 1\<rparr>) s)"

subsection \<open>Fullscreen\<close>

text \<open>\<^verbatim>\<open>setfullscreen(c, fullscreen)\<close>.\<close>

definition setfullscreen :: "Config \<Rightarrow> cref \<Rightarrow> int \<Rightarrow> WM \<Rightarrow> WM" where
  "setfullscreen cfg c fullscreen s =
     (if fullscreen \<noteq> 0 \<and> isfullscreen (cl s c) = 0 then
        (let s1 = upd_cl c (\<lambda>C. C\<lparr>isfullscreen := 1\<rparr>) s;
             s2 = upd_cl c (\<lambda>C. C\<lparr>oldstate := isfloating C\<rparr>) s1;
             s3 = upd_cl c (\<lambda>C. C\<lparr>old_border_width := border_width C\<rparr>) s2;
             s4 = upd_cl c (\<lambda>C. C\<lparr>border_width := 0\<rparr>) s3;
             s5 = upd_cl c (\<lambda>C. C\<lparr>isfloating := 1\<rparr>) s4;
             M = mon s5 (monitor (cl s5 c))
         in resizeclient c (mx M, my M, mw M, mh M) s5)
      else if fullscreen = 0 \<and> isfullscreen (cl s c) \<noteq> 0 then
        (let s1 = upd_cl c (\<lambda>C. C\<lparr>isfullscreen := 0\<rparr>) s;
             s2 = upd_cl c (\<lambda>C. C\<lparr>isfloating := oldstate C\<rparr>) s1;
             s3 = upd_cl c (\<lambda>C. C\<lparr>border_width := old_border_width C\<rparr>) s2;
             s4 = upd_cl c (\<lambda>C. C\<lparr>cx := oldx C\<rparr>) s3;
             s5 = upd_cl c (\<lambda>C. C\<lparr>cy := oldy C\<rparr>) s4;
             s6 = upd_cl c (\<lambda>C. C\<lparr>cw := oldw C\<rparr>) s5;
             s7 = upd_cl c (\<lambda>C. C\<lparr>ch := oldh C\<rparr>) s6;
             s8 = resizeclient c (cx (cl s7 c), cy (cl s7 c), cw (cl s7 c), ch (cl s7 c)) s7
         in arrange_wm cfg (Some (monitor (cl s8 c))) s8)
      else s)"

subsection \<open>ConfigureNotify on the root window\<close>

record XConfigureEvent =
  ev_window :: nat
  ev_width :: int
  ev_height :: int

text \<open>
  The first statements of \<^verbatim>\<open>configurenotify\<close> for an event on the root window:
  the assignments to \<^verbatim>\<open>sw\<close> and \<^verbatim>\<open>sh\<close>, then the value of the local
  \<^verbatim>\<open>dirty\<close>.
\<close>

definition configurenotify_sw_sh :: "XConfigureEvent \<Rightarrow> WM \<Rightarrow> WM" where
  "configurenotify_sw_sh ev s = (s\<lparr>sw := ev_width ev\<rparr>)\<lparr>sh := ev_height ev\<rparr>"

definition configurenotify_dirty :: "XConfigureEvent \<Rightarrow> WM \<Rightarrow> bool" where
  "configurenotify_dirty ev s =
     (let s1 = configurenotify_sw_sh ev s
      in sw s1 \<noteq> ev_width ev \<or> sh s1 \<noteq> ev_height ev)"

text \<open>The loops over all monitors and their clients that resize the fullscreen clients.\<close>

fun refit_fullscreen_clients :: "mref \<Rightarrow> cref list \<Rightarrow> WM \<Rightarrow> WM" where
  "refit_fullscreen_clients m [] s = s"
| "refit_fullscreen_clients m (c # cs) s =
     refit_fullscreen_clients m cs
       (if isfullscreen (cl s c) \<noteq> 0
        then resizeclient c (mx (mon s m), my (mon s m), mw (mon s m), mh (mon s m)) s else s)"

fun refit_fullscreen :: "mref list \<Rightarrow> WM \<Rightarrow> WM" where
  "refit_fullscreen [] s = s"
| "refit_fullscreen (m # ms) s =
     refit_fullscreen ms (refit_fullscreen_clients m (clients (mon s m)) s)"

text \<open>
  \<^verbatim>\<open>configurenotify(e)\<close>. What \<^verbatim>\<open>updategeom()\<close> returns and does depends on the
  screens the server reports; the call is the parameter \<open>ug\<close>.
\<close>

definition configurenotify :: "Config \<Rightarrow> (WM \<Rightarrow> bool \<times> WM) \<Rightarrow> XConfigureEvent \<Rightarrow> WM \<Rightarrow> WM" where
  "configurenotify cfg ug ev s =
     (if ev_window ev = root_window s then
        (let s1 = configurenotify_sw_sh ev s;
             dirty = configurenotify_dirty ev s;
             (changed, s2) = ug s1
         in if changed \<or> dirty
            then arrange_wm cfg None (focus None (refit_fullscreen (monitors s2) s2))
            else s2)
      else s)"


subsection \<open>Rules\<close>

text \<open>\<^verbatim>\<open>strstr(haystack, needle) != NULL\<close>: \<open>needle\<close> occurs in \<open>haystack\<close>.\<close>

fun strstr :: "string \<Rightarrow> string \<Rightarrow> bool" where
  "strstr [] needle = (needle = [])"
| "strstr (a # hay) needle = (take (length needle) (a # hay) = needle \<or> strstr hay needle)"

text \<open>The walk \<^verbatim>\<open>while (m && m->num != rule->monitor) m = m->next\<close>.\<close>

fun find_mon_num :: "WM \<Rightarrow> mref list \<Rightarrow> int \<Rightarrow> mref option" where
  "find_mon_num s [] k = None"
| "find_mon_num s (m # ms) k = (if num (mon s m) \<noteq> k then find_mon_num s ms k else Some m)"

definition rule_matches :: "Rule \<Rightarrow> string \<Rightarrow> string \<Rightarrow> string \<Rightarrow> bool" where
  "rule_matches r title class instance =
     ((case rule_title r of None \<Rightarrow> True | Some t \<Rightarrow> strstr title t)
      \<and> (case rule_class r of None \<Rightarrow> True | Some k \<Rightarrow> strstr class k)
      \<and> (case rule_instance r of None \<Rightarrow> True | Some i \<Rightarrow> strstr instance i))"

text \<open>The loop of \<^verbatim>\<open>applyrules\<close> over the table \<^verbatim>\<open>rules\<close>.\<close>

fun applyrules_loop :: "Rule list \<Rightarrow> string \<Rightarrow> string \<Rightarrow> cref \<Rightarrow> WM \<Rightarrow> WM" where
  "applyrules_loop [] class instance c s = s"
| "applyrules_loop (r # rs) class instance c s =
     applyrules_loop rs class instance c
       (if rule_matches r (name (cl s c)) class instance then
          (let s1 = upd_cl c (\<lambda>C. C\<lparr>isfloating := rule_isfloating r\<rparr>) s;
               s2 = upd_cl c (\<lambda>C. C\<lparr>tags := tags C OR rule_tags r\<rparr>) s1
           in case find_mon_num s2 (monitors s2) (rule_monitor r) of
                None \<Rightarrow> s2
              | Some m \<Rightarrow> upd_cl c (\<lambda>C. C\<lparr>monitor := m\<rparr>) s2)
        else s)"

text \<open>
  \<^verbatim>\<open>applyrules(c)\<close>. \<open>res_class\<close> and \<open>res_name\<close> are the two strings of the class
  hint the server returns, \<open>None\<close> for NULL.
\<close>

definition applyrules :: "Config \<Rightarrow> string option \<Rightarrow> string option \<Rightarrow> cref \<Rightarrow> WM \<Rightarrow> WM" where
  "applyrules cfg res_class res_name c s =
     (let s1 = upd_cl c (\<lambda>C. C\<lparr>isfloating := 0\<rparr>) s;
          s2 = upd_cl c (\<lambda>C. C\<lparr>tags := 0\<rparr>) s1;
          class = (case res_class of Some k \<Rightarrow> k | None \<Rightarrow> ''broken'');
          instance = (case res_name of Some i \<Rightarrow> i | None \<Rightarrow> ''broken'');
          s3 = applyrules_loop (rules cfg) class instance c s2
      in upd_cl c (\<lambda>C. C\<lparr>tags := (if tags C AND TAGMASK cfg \<noteq> 0 then tags C AND TAGMASK cfg
                                    else current_tags (mon s3 (monitor C)))\<rparr>) s3)"

subsection \<open>Monitors that disappear\<close>

text \<open>\<^verbatim>\<open>cleanupmon(monitor)\<close>: the monitor is unlinked from the chain.\<close>

definition cleanupmon :: "mref \<Rightarrow> WM \<Rightarrow> WM" where
  "cleanupmon m s =
     (case monitors s of
        [] \<Rightarrow> s
      | h # ms \<Rightarrow>
          if m = h then s\<lparr>monitors := ms\<rparr>
          else (case find_previous_monitor (monitors s) (Some m) of
                  None \<Rightarrow> s
                | Some p \<Rightarrow> s\<lparr>monitors := remove1 m (monitors s)\<rparr>))"

text \<open>
  The inner loop of the branch ``less monitors available'' of \<^verbatim>\<open>updategeom\<close>:
  \<^verbatim>\<open>while ((c = last_monitor->clients))\<close>. The state is paired with \<^verbatim>\<open>dirty\<close>;
  \<open>h\<close> is \<^verbatim>\<open>monitors\<close>, the head of the chain, and \<open>lm\<close> is \<^verbatim>\<open>last_monitor\<close>. The loop need not end (it does not
  when \<open>lm = h\<close> and the monitor has a client): a run that does not end is \<open>None\<close>.
\<close>

partial_function (option) migrate_clients :: "mref \<Rightarrow> mref \<Rightarrow> WM \<times> int \<Rightarrow> (WM \<times> int) option" where
  "migrate_clients h lm sd =
     (case clients (mon (fst sd) lm) of
        [] \<Rightarrow> Some sd
      | c # rest \<Rightarrow>
          migrate_clients h lm
            (let s1 = upd_mon lm (\<lambda>M. M\<lparr>clients := rest\<rparr>) (fst sd);
                 s2 = detachstack c s1;
                 s3 = upd_cl c (\<lambda>C. C\<lparr>monitor := h\<rparr>) s2
             in (attachstack c (attach c s3), 1)))"

text \<open>
  The outer loop \<^verbatim>\<open>for (i = screens_count; i < monitors_count; i++)\<close>, \<open>k\<close> being
  the number of iterations left. With an empty chain \<^verbatim>\<open>last_monitor\<close> is NULL and
  is dereferenced: no state (\<open>None\<close>).
\<close>

fun updategeom_less :: "nat \<Rightarrow> WM \<times> int \<Rightarrow> (WM \<times> int) option" where
  "updategeom_less 0 sd = Some sd"
| "updategeom_less (Suc k) sd =
     (case monitors (fst sd) of
        [] \<Rightarrow> None
      | h # ms \<Rightarrow>
          (let last_monitor = last (h # ms) in
           case migrate_clients h last_monitor sd of
             None \<Rightarrow> None
           | Some (s1, dirty) \<Rightarrow>
               (let s2 = (if last_monitor = selected_monitor s1
                          then s1\<lparr>selected_monitor := h\<rparr> else s1)
                in updategeom_less k (cleanupmon last_monitor s2, dirty))))"

text \<open>
  The branch ``less monitors available'' of \<^verbatim>\<open>updategeom\<close>, entered when
  \<^verbatim>\<open>monitors_count > screens_count\<close>, with \<^verbatim>\<open>dirty = 0\<close> on entry; the result is
  the state and \<^verbatim>\<open>dirty\<close> when the branch is left.
\<close>

definition updategeom_fewer :: "nat \<Rightarrow> WM \<Rightarrow> (WM \<times> int) option" where
  "updategeom_fewer screens_count s =
     updategeom_less (length (monitors s) - screens_count) (s, 0)"

subsection \<open>Concrete states\<close>

text \<open>
  A configuration with nine tags and no rules, and a screen of 1920 by 1080 with one
  monitor under the tile layout, a bar of height 20 on top and no client. The
  statements below are evaluated on variants of this state.
\<close>

definition ex_cfg :: Config where
  "ex_cfg = \<lparr>ntags = 9, resizehints = 1, rules = [], cfg_mfact = 55 / 100,
     cfg_masters_count = 1, cfg_showbar = 1, cfg_topbar = 1, cfg_gappx = 0,
     cfg_layout = \<lparr>symbol = ''[]='', arrange = Some Tile\<rparr>, fl = exact_float\<rparr>"

definition ex_client :: Client where
  "ex_client = \<lparr>name = ''xterm'', mina = 0, maxa = 0, cx = 10, cy = 30, cw = 400, ch = 300,
     oldx = 10, oldy = 30, oldw = 400, oldh = 300, basew = 0, baseh = 0, incw = 0, inch = 0,
     maxw = 0, maxh = 0, minw = 0, minh = 0, border_width = 1, old_border_width = 1,
     tags = 1, isfixed = 0, isfloating = 0, isurgent = 0, neverfocus = 0, oldstate = 0,
     isfullscreen = 0, monitor = 0\<rparr>"

definition ex_monitor :: Monitor where
  "ex_monitor = \<lparr>mfact = 55 / 100, masters_count = 1, num = 0, bar_y = 0,
     mx = 0, my = 0, mw = 1920, mh = 1080, wx = 0, wy = 20, ww = 1920, wh = 1060, gappx = 0,
     selected_tags_set = 0, tagset = [1, 1], showbar = 1, topbar = 1,
     clients = [], selected_client = None, stack = [],
     current_layout_index = 0,
     layouts = replicate 9 \<lparr>symbol = ''[]='', arrange = Some Tile\<rparr>\<rparr>"

definition ex_wm :: WM where
  "ex_wm = \<lparr>monitors = [0], selected_monitor = 0, mon = (\<lambda>m. ex_monitor\<lparr>num := int m\<rparr>),
     cl = (\<lambda>c. ex_client), sw = 1920, sh = 1080, bh = 20, root_window = 0\<rparr>"


subsection \<open>Well-formed states\<close>

text \<open>
  The two tag-sets of a monitor are an array of length 2, indexed by
  \<^verbatim>\<open>selected_tags_set\<close>, which is 0 or 1.
\<close>

definition tagset_wf :: "Monitor \<Rightarrow> bool" where
  "tagset_wf M = (length (tagset M) = 2 \<and> selected_tags_set M < 2)"


subsection \<open>Projections of the state\<close>

text \<open>
  A client without its geometry, a state without the geometry of its clients, and a
  state without what \<^verbatim>\<open>focus\<close> writes (the selected monitor, the focus stacks, the
  selected clients and the urgency flags).
\<close>

definition geom_erase :: "Client \<Rightarrow> Client" where
  "geom_erase C = C\<lparr>cx := 0, cy := 0, cw := 0, ch := 0, oldx := 0, oldy := 0, oldw := 0, oldh := 0\<rparr>"

definition nongeom :: "WM \<Rightarrow> WM" where
  "nongeom s = s\<lparr>cl := (\<lambda>c. geom_erase (cl s c))\<rparr>"

definition stackless :: "WM \<Rightarrow> WM" where
  "stackless s = s\<lparr>selected_monitor := 0,
     mon := (\<lambda>m. (mon s m)\<lparr>stack := [], selected_client := None\<rparr>),
     cl := (\<lambda>c. (cl s c)\<lparr>isurgent := 0\<rparr>)\<rparr>"

subsection \<open>Size hints: auxiliary notions\<close>



subsection \<open>Fullscreen: auxiliary notions\<close>

text \<open>
  The rectangle of a client, the screen rectangle of a monitor, and the statements of
  \<^verbatim>\<open>setfullscreen(c, 0)\<close> that come before its call of \<^verbatim>\<open>arrange\<close>. The concrete
  state \<open>ex_wm_small\<close> has one floating client of 5 by 5 pixels, visible and focused.
\<close>

definition geometry :: "Client \<Rightarrow> int \<times> int \<times> int \<times> int" where
  "geometry C = (cx C, cy C, cw C, ch C)"

definition screen_rect :: "Monitor \<Rightarrow> int \<times> int \<times> int \<times> int" where
  "screen_rect M = (mx M, my M, mw M, mh M)"

definition unset_fullscreen :: "cref \<Rightarrow> WM \<Rightarrow> WM" where
  "unset_fullscreen c s =
     resizeclient c (oldx (cl s c), oldy (cl s c), oldw (cl s c), oldh (cl s c))
       (upd_cl c (\<lambda>C. C\<lparr>isfullscreen := 0, isfloating := oldstate C,
          border_width := old_border_width C,
          cx := oldx C, cy := oldy C, cw := oldw C, ch := oldh C\<rparr>) s)"

definition ex_wm_small :: WM where
  "ex_wm_small = ex_wm\<lparr>cl := (\<lambda>c. ex_client\<lparr>cw := 5, ch := 5, isfloating := 1\<rparr>),
     mon := (\<lambda>m. ex_monitor\<lparr>clients := [0], stack := [0], selected_client := Some 0\<rparr>)\<rparr>"

subsection \<open>Monitors that disappear: auxiliary notions\<close>

text \<open>
  One pass through the body of the loop that empties the last monitor; the chains of
  a well-formed state (the monitors are distinct, the clients of each monitor are
  distinct and point back to it); the clients of the monitors behind the first \<open>n\<close>,
  each monitor's client list reversed; the focus stack of a monitor in the result of
  the branch; and a state with two monitors, the second one holding the clients 1 and 2.
\<close>

definition migrate_step :: "mref \<Rightarrow> mref \<Rightarrow> cref \<Rightarrow> cref list \<Rightarrow> WM \<Rightarrow> WM" where
  "migrate_step h lm c rest s =
     (let s1 = upd_mon lm (\<lambda>M. M\<lparr>clients := rest\<rparr>) s;
          s2 = detachstack c s1;
          s3 = upd_cl c (\<lambda>C. C\<lparr>monitor := h\<rparr>) s2
      in attachstack c (attach c s3))"

definition chains_wf :: "WM \<Rightarrow> bool" where
  "chains_wf s =
     (distinct (monitors s) \<and>
      (\<forall>m \<in> set (monitors s). distinct (clients (mon s m)) \<and>
         (\<forall>c \<in> set (clients (mon s m)). monitor (cl s c) = m)))"

definition migrated :: "WM \<Rightarrow> nat \<Rightarrow> cref list" where
  "migrated s n = concat (map (\<lambda>m. rev (clients (mon s m))) (drop n (monitors s)))"

definition head_stack :: "(WM \<times> int) option \<Rightarrow> mref \<Rightarrow> cref list option" where
  "head_stack r m = map_option (\<lambda>sd. stack (mon (fst sd) m)) r"

definition ex_wm2 :: WM where
  "ex_wm2 = ex_wm\<lparr>monitors := [0, 1],
     mon := (\<lambda>m. if m = 1
                 then ex_monitor\<lparr>num := 1, clients := [1, 2], stack := [1, 2], selected_client := Some 1\<rparr>
                 else ex_monitor),
     cl := (\<lambda>c. ex_client\<lparr>monitor := 1\<rparr>)\<rparr>"

subsection \<open>Tags of clients: auxiliary notions\<close>

text \<open>
  The commands that write the tags of a client or the tag-sets of a monitor, and runs
  of such commands. A tag mask is in order when it is not zero and lies within
  \<^verbatim>\<open>TAGMASK\<close>; a monitor's tag-sets are in order when the array is well formed and
  both tag-sets are; a state is in order, for a set \<open>C\<close> of clients, when the tag-sets of
  every monitor and the tags of every client of \<open>C\<close> are.
\<close>

datatype tag_op = Tag uint | ToggleTag uint | SendMon cref mref | View uint | ToggleView uint

fun do_op :: "Config \<Rightarrow> tag_op \<Rightarrow> WM \<Rightarrow> WM" where
  "do_op cfg (Tag i) s = tag cfg i s"
| "do_op cfg (ToggleTag i) s = toggletag cfg i s"
| "do_op cfg (SendMon c m) s = sendmon cfg c m s"
| "do_op cfg (View i) s = view cfg i s"
| "do_op cfg (ToggleView i) s = toggleview cfg i s"

fun run_ops :: "Config \<Rightarrow> tag_op list \<Rightarrow> WM \<Rightarrow> WM" where
  "run_ops cfg [] s = s"
| "run_ops cfg (p # ps) s = run_ops cfg ps (do_op cfg p s)"

definition tags_ok :: "Config \<Rightarrow> uint \<Rightarrow> bool" where
  "tags_ok cfg t = (t \<noteq> 0 \<and> t AND TAGMASK cfg = t)"

definition mon_tags_ok :: "Config \<Rightarrow> Monitor \<Rightarrow> bool" where
  "mon_tags_ok cfg M = (tagset_wf M \<and> tags_ok cfg (tagset M ! 0) \<and> tags_ok cfg (tagset M ! 1))"

definition tags_inv :: "Config \<Rightarrow> cref set \<Rightarrow> WM \<Rightarrow> bool" where
  "tags_inv cfg C s = ((\<forall>m. mon_tags_ok cfg (mon s m)) \<and> (\<forall>c \<in> C. tags_ok cfg (tags (cl s c))))"

section \<open>Properties\<close>

subsection \<open>What arranging leaves alone\<close>

text \<open>
  \<^verbatim>\<open>resizeclient\<close> writes the geometry of a client and nothing else, so the same
  holds for \<^verbatim>\<open>resize\<close>, the layouts and \<^verbatim>\<open>arrange\<close>: a state with the geometry
  of every client erased does not change.
\<close>

lemma nongeom_resizeclient: "nongeom (resizeclient c r s) = nongeom s"
  by (cases r) (auto simp: nongeom_def resizeclient_def geom_erase_def fun_eq_iff)

lemma nongeom_resize: "nongeom (resize cfg c r i s) = nongeom s"
  by (simp add: resize_def nongeom_resizeclient split: prod.splits)

lemma nongeom_fields:
  "mon (nongeom s) = mon s" "monitors (nongeom s) = monitors s"
  "selected_monitor (nongeom s) = selected_monitor s"
  "sw (nongeom s) = sw s" "sh (nongeom s) = sh s" "bh (nongeom s) = bh s"
  "root_window (nongeom s) = root_window s"
  by (simp_all add: nongeom_def)

lemma nongeom_cl_fields:
  "tags (cl (nongeom s) c) = tags (cl s c)"
  "isfloating (cl (nongeom s) c) = isfloating (cl s c)"
  "isfullscreen (cl (nongeom s) c) = isfullscreen (cl s c)"
  "border_width (cl (nongeom s) c) = border_width (cl s c)"
  "old_border_width (cl (nongeom s) c) = old_border_width (cl s c)"
  "oldstate (cl (nongeom s) c) = oldstate (cl s c)"
  "monitor (cl (nongeom s) c) = monitor (cl s c)"
  "isurgent (cl (nongeom s) c) = isurgent (cl s c)"
  by (simp_all add: nongeom_def geom_erase_def)

lemma nongeom_eqD:
  assumes "nongeom s' = nongeom s"
  shows "mon s' = mon s" "monitors s' = monitors s" "selected_monitor s' = selected_monitor s"
    "sw s' = sw s" "sh s' = sh s" "bh s' = bh s"
    "tags (cl s' c) = tags (cl s c)" "isfloating (cl s' c) = isfloating (cl s c)"
    "isfullscreen (cl s' c) = isfullscreen (cl s c)"
    "border_width (cl s' c) = border_width (cl s c)"
    "old_border_width (cl s' c) = old_border_width (cl s c)"
    "oldstate (cl s' c) = oldstate (cl s c)"
    "monitor (cl s' c) = monitor (cl s c)"
    "isurgent (cl s' c) = isurgent (cl s c)"
  using nongeom_fields [of s'] nongeom_fields [of s]
    nongeom_cl_fields [of s' c] nongeom_cl_fields [of s c] assms
  by simp_all

lemma nongeom_showhide: "nongeom (showhide cfg cs s) = nongeom s"
  by (induction cs arbitrary: s) (simp_all add: nongeom_resize)

lemma nongeom_monocle_loop: "nongeom (monocle_loop cfg m cs s) = nongeom s"
  by (induction cfg m cs s rule: monocle_loop.induct) (simp_all add: nongeom_resize Let_def)

lemma nongeom_tile_loop: "nongeom (tile_loop cfg m n a b d i cs s) = nongeom s"
  by (induction cfg m n a b d i cs s rule: tile_loop.induct) (simp_all add: nongeom_resize Let_def)

lemma nongeom_arrangemon: "nongeom (arrangemon cfg m s) = nongeom s"
  by (simp add: arrangemon_def tile_def monocle_def nongeom_tile_loop nongeom_monocle_loop Let_def
      split: option.splits arrange_fn.splits)

lemma nongeom_arrange_all: "nongeom (arrange_all cfg ms s) = nongeom s"
  by (induction ms arbitrary: s) (simp_all add: nongeom_arrangemon nongeom_showhide)

lemma nongeom_arrange_wm: "nongeom (arrange_wm cfg mo s) = nongeom s"
  by (simp add: arrange_wm_def nongeom_arrangemon nongeom_showhide nongeom_arrange_all
      split: option.splits)


lemma mon_upd_mon: "mon (upd_mon m f s) = (mon s)(m := f (mon s m))"
  by (simp add: upd_mon_def)


lemma cl_upd_cl: "cl (upd_cl c f s) = (cl s)(c := f (cl s c))"
  by (simp add: upd_cl_def)


lemma mon_arrange_wm: "mon (arrange_wm cfg mo s) = mon s"
  using nongeom_arrange_wm [of cfg mo s] by (rule nongeom_eqD)


lemma monitors_arrange_wm: "monitors (arrange_wm cfg mo s) = monitors s"
  using nongeom_arrange_wm [of cfg mo s] by (rule nongeom_eqD)

subsection \<open>ConfigureNotify: the local \<^verbatim>\<open>dirty\<close>\<close>

text \<open>
  Claim C4. In the handler \<^verbatim>\<open>configurenotify\<close>, for an event on the root window,
  the local \<^verbatim>\<open>dirty\<close>, computed as \<^verbatim>\<open>sw != ev->width || sh != ev->height\<close>, is
  false for every event and every state: \<^verbatim>\<open>sw\<close> and \<^verbatim>\<open>sh\<close> have been overwritten
  with the event's width and height before the comparison.
\<close>

theorem configurenotify_dirty_is_false: "\<not> configurenotify_dirty ev s"
  by (simp add: configurenotify_dirty_def configurenotify_sw_sh_def)

theorem configurenotify_dirty_is_false_witness:
  "\<not> configurenotify_dirty \<lparr>ev_window = 0, ev_width = 1280, ev_height = 720\<rparr> ex_wm"
  using configurenotify_dirty_is_false [of "\<lparr>ev_window = 0, ev_width = 1280, ev_height = 720\<rparr>" ex_wm]
  by simp

text \<open>
  So the handler re-arranges exactly when \<^verbatim>\<open>updategeom()\<close> reports a change, whatever
  the new size of the screen.
\<close>

lemma configurenotify_only_updategeom:
  "ev_window ev = root_window s \<Longrightarrow> \<not> fst (ug (configurenotify_sw_sh ev s)) \<Longrightarrow>
   configurenotify cfg ug ev s = snd (ug (configurenotify_sw_sh ev s))"
  by (cases "ug (configurenotify_sw_sh ev s)")
    (simp add: configurenotify_def configurenotify_dirty_def configurenotify_sw_sh_def)

subsection \<open>The number of masters\<close>

lemma masters_count_change_masters_count:
  "masters_count (mon (change_masters_count cfg i s) (selected_monitor s)) =
     cMAX (masters_count (mon s (selected_monitor s)) + word_of_int i) 1"
  by (simp add: change_masters_count_def mon_arrange_wm mon_upd_mon)

lemma cMAX_wrap: "cMAX ((1::uint) + word_of_int (- 2)) 1 = 4294967295"
  unfolding cMAX_def by code_simp

text \<open>
  Claim C7 says that \<^verbatim>\<open>change_masters_count\<close> leaves \<^verbatim>\<open>masters_count\<close> equal to
  \<open>max (masters_count + i) 1\<close> for every integer \<open>i\<close>. The sum is taken on the unsigned
  counter, so a negative sum wraps around before \<^verbatim>\<open>MAX\<close> sees it: with one master
  and \<open>i = -2\<close> the counter becomes 4294967295, where the claim has 1.
\<close>

theorem change_masters_count_wraps:
  "masters_count (mon ex_wm (selected_monitor ex_wm)) = 1 \<and>
   masters_count (mon (change_masters_count ex_cfg (- 2) ex_wm) (selected_monitor ex_wm)) = 4294967295 \<and>
   max (uint (masters_count (mon ex_wm (selected_monitor ex_wm))) + (- 2)) 1 = (1::int)"
proof -
  have h: "masters_count (mon ex_wm (selected_monitor ex_wm)) = 1"
    by (simp add: ex_wm_def ex_monitor_def)
  have "masters_count (mon (change_masters_count ex_cfg (- 2) ex_wm) (selected_monitor ex_wm))
      = cMAX ((1::uint) + word_of_int (- 2)) 1"
    by (simp only: masters_count_change_masters_count h)
  then show ?thesis using h by (simp only: cMAX_wrap) simp
qed

text \<open>The part of the claim that holds: the counter never drops below 1.\<close>

lemma change_masters_count_ge_1:
  "1 \<le> masters_count (mon (change_masters_count cfg i s) (selected_monitor s))"
  by (simp add: masters_count_change_masters_count cMAX_def less_imp_le)

subsection \<open>Going from monitor to monitor\<close>




lemma find_previous_monitor_found:
  "m \<in> set ms \<Longrightarrow> m \<noteq> hd ms \<Longrightarrow> \<exists>p. find_previous_monitor ms (Some m) = Some p"
  by (induction ms "Some m" rule: find_previous_monitor.induct) auto




subsection \<open>The master factor\<close>






subsection \<open>What focusing leaves alone\<close>

lemma stackless_upd_stack: "stackless (upd_mon m (\<lambda>M. M\<lparr>stack := f M\<rparr>) s) = stackless s"
  by (auto simp: stackless_def upd_mon_def fun_eq_iff)

lemma stackless_upd_selected_client:
  "stackless (upd_mon m (\<lambda>M. M\<lparr>selected_client := f M\<rparr>) s) = stackless s"
  by (auto simp: stackless_def upd_mon_def fun_eq_iff)

lemma stackless_selected_monitor: "stackless (s\<lparr>selected_monitor := m\<rparr>) = stackless s"
  by (simp add: stackless_def)

lemma stackless_seturgent: "stackless (seturgent c u s) = stackless s"
  by (auto simp: stackless_def seturgent_def upd_cl_def fun_eq_iff)

lemma stackless_detachstack: "stackless (detachstack c s) = stackless s"
  by (simp add: detachstack_def Let_def stackless_upd_stack stackless_upd_selected_client)

lemma stackless_attachstack: "stackless (attachstack c s) = stackless s"
  by (simp add: attachstack_def stackless_upd_stack)

lemma stackless_focus: "stackless (focus co s) = stackless s"
  by (simp add: focus_def Let_def stackless_upd_selected_client stackless_attachstack
      stackless_detachstack stackless_seturgent stackless_selected_monitor split: option.splits)

lemma stackless_mon_fields:
    "tagset (mon (stackless s) m) = tagset (mon s m)"
    "selected_tags_set (mon (stackless s) m) = selected_tags_set (mon s m)"
    "clients (mon (stackless s) m) = clients (mon s m)"
    "layouts (mon (stackless s) m) = layouts (mon s m)"
    "current_layout_index (mon (stackless s) m) = current_layout_index (mon s m)"
    "mfact (mon (stackless s) m) = mfact (mon s m)"
    "masters_count (mon (stackless s) m) = masters_count (mon s m)"
  by (simp_all add: stackless_def)

lemma stackless_cl_fields:
    "tags (cl (stackless s) c) = tags (cl s c)"
    "monitor (cl (stackless s) c) = monitor (cl s c)"
    "isfloating (cl (stackless s) c) = isfloating (cl s c)"
    "isfullscreen (cl (stackless s) c) = isfullscreen (cl s c)"
    "border_width (cl (stackless s) c) = border_width (cl s c)"
    "cx (cl (stackless s) c) = cx (cl s c)" "cy (cl (stackless s) c) = cy (cl s c)"
    "cw (cl (stackless s) c) = cw (cl s c)" "ch (cl (stackless s) c) = ch (cl s c)"
  by (simp_all add: stackless_def)

lemma stackless_wm_fields:
    "monitors (stackless s) = monitors s"
    "sw (stackless s) = sw s" "sh (stackless s) = sh s" "bh (stackless s) = bh s"
  by (simp_all add: stackless_def)

lemma stackless_eqD:
  assumes "stackless s' = stackless s"
  shows "tagset (mon s' m) = tagset (mon s m)"
    "selected_tags_set (mon s' m) = selected_tags_set (mon s m)"
    "clients (mon s' m) = clients (mon s m)"
    "layouts (mon s' m) = layouts (mon s m)"
    "current_layout_index (mon s' m) = current_layout_index (mon s m)"
    "mfact (mon s' m) = mfact (mon s m)"
    "masters_count (mon s' m) = masters_count (mon s m)"
    "monitors s' = monitors s"
    "tags (cl s' c) = tags (cl s c)"
    "monitor (cl s' c) = monitor (cl s c)"
    "isfloating (cl s' c) = isfloating (cl s c)"
    "isfullscreen (cl s' c) = isfullscreen (cl s c)"
    "border_width (cl s' c) = border_width (cl s c)"
    "cx (cl s' c) = cx (cl s c)" "cy (cl s' c) = cy (cl s c)"
    "cw (cl s' c) = cw (cl s c)" "ch (cl s' c) = ch (cl s c)"
    "sw s' = sw s" "sh s' = sh s" "bh s' = bh s"
  using stackless_mon_fields [of s' m] stackless_mon_fields [of s m]
    stackless_cl_fields [of s' c] stackless_cl_fields [of s c]
    stackless_wm_fields [of s'] stackless_wm_fields [of s] assms
  by simp_all









lemma word_lt_2:
  assumes "(w::uint) < 2"
  shows "w = 0 \<or> w = 1"
proof -
  from assms have "unat w < 2" by (simp add: word_less_nat_alt)
  then have "unat w = 0 \<or> unat w = 1" by auto
  then show ?thesis by (metis unsigned_0 unsigned_1 unsigned_word_eqI)
qed



subsection \<open>Viewing a tag twice\<close>











subsection \<open>Size hints\<close>















subsection \<open>Fullscreen and back\<close>

lemma setfullscreen_on:
  assumes "isfullscreen (cl s c) = 0"
  shows "cl (setfullscreen cfg c 1 s) c =
           (cl s c)\<lparr>isfullscreen := 1, oldstate := isfloating (cl s c),
             old_border_width := border_width (cl s c), border_width := 0, isfloating := 1,
             oldx := cx (cl s c), cx := mx (mon s (monitor (cl s c))),
             oldy := cy (cl s c), cy := my (mon s (monitor (cl s c))),
             oldw := cw (cl s c), cw := mw (mon s (monitor (cl s c))),
             oldh := ch (cl s c), ch := mh (mon s (monitor (cl s c)))\<rparr>"
  using assms by (simp add: setfullscreen_def Let_def upd_cl_def resizeclient_def)

lemma setfullscreen_off:
  assumes "isfullscreen (cl s c) \<noteq> 0"
  shows "setfullscreen cfg c 0 s = arrange_wm cfg (Some (monitor (cl s c))) (unset_fullscreen c s)"
  using assms by (simp add: setfullscreen_def Let_def upd_cl_def resizeclient_def unset_fullscreen_def)

lemma unset_fullscreen_set:
  assumes "isfullscreen (cl s c) = 0"
  shows "geometry (cl (unset_fullscreen c (setfullscreen cfg c 1 s)) c) = geometry (cl s c)"
    "border_width (cl (unset_fullscreen c (setfullscreen cfg c 1 s)) c) = border_width (cl s c)"
    "isfloating (cl (unset_fullscreen c (setfullscreen cfg c 1 s)) c) = isfloating (cl s c)"
    "isfullscreen (cl (unset_fullscreen c (setfullscreen cfg c 1 s)) c) = 0"
  by (simp_all add: unset_fullscreen_def setfullscreen_on [OF assms] upd_cl_def resizeclient_def
      geometry_def)

text \<open>
  Claim C9, amended. For every client that is not fullscreen, \<^verbatim>\<open>setfullscreen(c, 1)\<close>
  makes the client's geometry the screen rectangle \<open>(mx, my, mw, mh)\<close> of its monitor,
  with border width 0 and \<^verbatim>\<open>isfloating\<close> set. An immediate \<^verbatim>\<open>setfullscreen(c, 0)\<close>
  puts geometry, border width and floating state back to their values before the
  first call and then calls \<^verbatim>\<open>arrange\<close> on the client's monitor: the final state is
  the arrangement of a state in which the geometry is the one before the first call.
  Border width and floating state are the old ones in the final state as well; the
  final geometry is what \<^verbatim>\<open>arrange\<close> makes of the restored one.
\<close>

theorem setfullscreen_roundtrip:
  assumes "isfullscreen (cl s c) = 0"
  shows "geometry (cl (setfullscreen cfg c 1 s) c) = screen_rect (mon s (monitor (cl s c)))
       \<and> border_width (cl (setfullscreen cfg c 1 s) c) = 0
       \<and> isfloating (cl (setfullscreen cfg c 1 s) c) = 1
       \<and> (\<exists>s'. setfullscreen cfg c 0 (setfullscreen cfg c 1 s) =
                  arrange_wm cfg (Some (monitor (cl s c))) s'
              \<and> geometry (cl s' c) = geometry (cl s c))
       \<and> border_width (cl (setfullscreen cfg c 0 (setfullscreen cfg c 1 s)) c) = border_width (cl s c)
       \<and> isfloating (cl (setfullscreen cfg c 0 (setfullscreen cfg c 1 s)) c) = isfloating (cl s c)"
proof -
  let ?s1 = "setfullscreen cfg c 1 s"
  have on: "isfullscreen (cl ?s1 c) \<noteq> 0" "monitor (cl ?s1 c) = monitor (cl s c)"
    by (simp_all add: setfullscreen_on [OF assms])
  have off: "setfullscreen cfg c 0 ?s1 = arrange_wm cfg (Some (monitor (cl s c))) (unset_fullscreen c ?s1)"
    using setfullscreen_off [OF on(1)] on(2) by simp
  have a: "geometry (cl ?s1 c) = screen_rect (mon s (monitor (cl s c)))"
    "border_width (cl ?s1 c) = 0" "isfloating (cl ?s1 c) = 1"
    by (simp_all add: setfullscreen_on [OF assms] geometry_def screen_rect_def)
  have b: "\<exists>s'. setfullscreen cfg c 0 ?s1 = arrange_wm cfg (Some (monitor (cl s c))) s'
              \<and> geometry (cl s' c) = geometry (cl s c)"
    using off unset_fullscreen_set(1) [OF assms] by blast
  have d: "border_width (cl (setfullscreen cfg c 0 ?s1) c) = border_width (cl s c)"
    "isfloating (cl (setfullscreen cfg c 0 ?s1) c) = isfloating (cl s c)"
    by (simp_all add: off nongeom_eqD [OF nongeom_arrange_wm] unset_fullscreen_set [OF assms])
  from a b d show ?thesis by simp
qed

lemma ex_wm_small_off:
  "cw (cl ex_wm_small 0) = 5 \<and> isfullscreen (cl ex_wm_small 0) = 0" 
  by (simp add: ex_wm_small_def ex_wm_def ex_client_def)

lemma ex_wm_small_unset:
  "unset_fullscreen 0 (setfullscreen ex_cfg 0 1 ex_wm_small) =
     ex_wm_small\<lparr>cl := (cl ex_wm_small)(0 := (cl ex_wm_small 0)\<lparr>oldstate := 1, oldx := 10, oldy := 30, oldw := 5, oldh := 5\<rparr>)\<rparr>"
  apply (simp add: unset_fullscreen_def setfullscreen_def Let_def upd_cl_def resizeclient_def)
  apply (simp add: ex_wm_small_def ex_wm_def ex_client_def ex_monitor_def fun_eq_iff)
  done


lemma ex_wm_small_showhide:
  "geometry (cl (showhide ex_cfg [0] (unset_fullscreen 0 (setfullscreen ex_cfg 0 1 ex_wm_small))) 0)
     = (10, 30, 20, 20)"
  unfolding ex_wm_small_unset
  by (simp add: ISVISIBLE_def current_tags_def current_layout_def resize_def resizeclient_def
      applysizehints_def hints_position_def hints_size_def Let_def cMAX_def cMIN_def
      WIDTH_def HEIGHT_def geometry_def
      ex_wm_small_def ex_wm_def ex_client_def ex_monitor_def ex_cfg_def)


lemma nexttiled_all_floating:
  "\<forall>c \<in> set cs. isfloating (cl s c) \<noteq> 0 \<Longrightarrow> nexttiled s cs = []"
  by (induction cs) auto

lemma tile_all_floating:
  "\<forall>c \<in> set (clients (mon s m)). isfloating (cl s c) \<noteq> 0 \<Longrightarrow> tile cfg m s = s"
  by (simp add: tile_def count_tiled_clients_def nexttiled_all_floating)

text \<open>
  Claim C9 as stated fails: a visible floating client of 5 by 5 pixels (a size a
  floating client gets from a ConfigureRequest) comes back from fullscreen as 20 by 20,
  since \<^verbatim>\<open>arrange\<close> applies the size hints, with the bar height 20 as the floor, to
  every visible floating client.
\<close>

theorem setfullscreen_roundtrip_rearranged:
  "isfullscreen (cl ex_wm_small 0) = 0 \<and> geometry (cl ex_wm_small 0) = (10, 30, 5, 5)
   \<and> geometry (cl (setfullscreen ex_cfg 0 0 (setfullscreen ex_cfg 0 1 ex_wm_small)) 0) = (10, 30, 20, 20)"
proof -
  define u where "u = unset_fullscreen 0 (setfullscreen ex_cfg 0 1 ex_wm_small)"
  define v where "v = showhide ex_cfg [0] u"
  have off: "isfullscreen (cl ex_wm_small 0) = 0"
    by (simp add: ex_wm_small_def ex_wm_def ex_client_def)
  have on: "isfullscreen (cl (setfullscreen ex_cfg 0 1 ex_wm_small) 0) \<noteq> 0"
    "monitor (cl (setfullscreen ex_cfg 0 1 ex_wm_small) 0) = 0"
    by (simp_all add: setfullscreen_on [OF off]) (simp add: ex_wm_small_def ex_wm_def ex_client_def)
  have st: "stack (mon u 0) = [0]" "clients (mon u 0) = [0]"
    "arrange (current_layout (mon u 0)) = Some Tile" "isfloating (cl u 0) = 1"
    unfolding u_def ex_wm_small_unset
    by (simp_all add: ex_wm_small_def ex_wm_def ex_monitor_def ex_client_def current_layout_def)
  have v: "mon v = mon u" "isfloating (cl v 0) = isfloating (cl u 0)"
    unfolding v_def by (rule nongeom_eqD [OF nongeom_showhide])+
  have "setfullscreen ex_cfg 0 0 (setfullscreen ex_cfg 0 1 ex_wm_small) =
      arrange_wm ex_cfg (Some 0) u"
    using setfullscreen_off [OF on(1)] on(2) by (simp add: u_def)
  also have "\<dots> = arrangemon ex_cfg 0 v"
    by (simp only: arrange_wm_def option.case st v_def)
  also have "\<dots> = tile ex_cfg 0 v"
    by (simp only: arrangemon_def v st option.case arrange_fn.case)
  also have "\<dots> = v"
    by (rule tile_all_floating) (simp add: v st)
  finally have "geometry (cl (setfullscreen ex_cfg 0 0 (setfullscreen ex_cfg 0 1 ex_wm_small)) 0)
      = (10, 30, 20, 20)"
    using ex_wm_small_showhide by (simp only: v_def u_def)
  moreover have "geometry (cl ex_wm_small 0) = (10, 30, 5, 5)"
    by (simp add: geometry_def ex_wm_small_def ex_wm_def ex_client_def)
  ultimately show ?thesis using off by simp
qed

theorem setfullscreen_roundtrip_witness:
  "geometry (cl (setfullscreen ex_cfg 0 1 ex_wm_small) 0) = (0, 0, 1920, 1080)
   \<and> border_width (cl (setfullscreen ex_cfg 0 1 ex_wm_small) 0) = 0
   \<and> border_width (cl (setfullscreen ex_cfg 0 0 (setfullscreen ex_cfg 0 1 ex_wm_small)) 0) = 1
   \<and> isfloating (cl (setfullscreen ex_cfg 0 0 (setfullscreen ex_cfg 0 1 ex_wm_small)) 0) = 1"
proof -
  have off: "isfullscreen (cl ex_wm_small 0) = 0"
    by (simp add: ex_wm_small_def ex_wm_def ex_client_def)
  have f: "screen_rect (mon ex_wm_small (monitor (cl ex_wm_small 0))) = (0, 0, 1920, 1080)"
    "border_width (cl ex_wm_small 0) = 1" "isfloating (cl ex_wm_small 0) = 1"
    by (simp_all add: screen_rect_def ex_wm_small_def ex_wm_def ex_client_def ex_monitor_def)
  from setfullscreen_roundtrip [OF off, of ex_cfg] show ?thesis
    by (simp only: f)
qed

subsection \<open>Monitors that disappear\<close>

lemma migrate_clients_Nil:
  "clients (mon s lm) = [] \<Longrightarrow> migrate_clients h lm (s, d) = Some (s, d)"
  by (subst migrate_clients.simps) simp

lemma migrate_clients_Cons:
  "clients (mon s lm) = c # rest \<Longrightarrow>
   migrate_clients h lm (s, d) = migrate_clients h lm (migrate_step h lm c rest s, 1)"
  by (subst migrate_clients.simps) (simp add: migrate_step_def Let_def)

lemma migrate_step_facts:
  assumes "lm \<noteq> h" "monitor (cl s c) = lm"
  shows "clients (mon (migrate_step h lm c rest s) lm) = rest"
    and "clients (mon (migrate_step h lm c rest s) h) = c # clients (mon s h)"
    and "stack (mon (migrate_step h lm c rest s) h) = c # stack (mon s h)"
    and "monitor (cl (migrate_step h lm c rest s) c) = h"
    and "c' \<noteq> c \<Longrightarrow> cl (migrate_step h lm c rest s) c' = cl s c'"
    and "m \<noteq> h \<Longrightarrow> m \<noteq> lm \<Longrightarrow> mon (migrate_step h lm c rest s) m = mon s m"
    and "monitors (migrate_step h lm c rest s) = monitors s"
    and "selected_monitor (migrate_step h lm c rest s) = selected_monitor s"
  using assms
  by (simp_all add: migrate_step_def Let_def detachstack_def attach_def attachstack_def
      upd_mon_def upd_cl_def)


lemma migrate_clients_result:
  assumes "lm \<noteq> h"
    and "clients (mon s lm) = cs"
    and "distinct cs"
    and "\<forall>c \<in> set cs. monitor (cl s c) = lm"
  shows "\<exists>s'. migrate_clients h lm (s, d) = Some (s', if cs = [] then d else 1)
           \<and> clients (mon s' lm) = []
           \<and> clients (mon s' h) = rev cs @ clients (mon s h)
           \<and> stack (mon s' h) = rev cs @ stack (mon s h)
           \<and> (\<forall>c \<in> set cs. monitor (cl s' c) = h)
           \<and> (\<forall>c. c \<notin> set cs \<longrightarrow> cl s' c = cl s c)
           \<and> (\<forall>m. m \<noteq> h \<and> m \<noteq> lm \<longrightarrow> mon s' m = mon s m)
           \<and> monitors s' = monitors s
           \<and> selected_monitor s' = selected_monitor s"
  using assms(2,3,4)
proof (induction cs arbitrary: s d)
  case Nil
  then show ?case by (simp add: migrate_clients_Nil)
next
  case (Cons c rest)
  let ?t = "migrate_step h lm c rest s"
  have c: "monitor (cl s c) = lm" using Cons.prems(3) by simp
  note f = migrate_step_facts [OF assms(1) c, where rest=rest]
  have 1: "clients (mon ?t lm) = rest" by (rule f(1))
  have 2: "distinct rest" using Cons.prems(2) by simp
  have 3: "\<forall>c' \<in> set rest. monitor (cl ?t c') = lm"
  proof
    fix c' assume m: "c' \<in> set rest"
    with Cons.prems(2) have "c' \<noteq> c" by auto
    then have "cl ?t c' = cl s c'" by (rule f(5))
    with m Cons.prems(3) show "monitor (cl ?t c') = lm" by simp
  qed
  from Cons.IH [OF 1 2 3, of 1] obtain s' where
    s': "migrate_clients h lm (?t, 1) = Some (s', if rest = [] then 1 else 1)"
      "clients (mon s' lm) = []"
      "clients (mon s' h) = rev rest @ clients (mon ?t h)"
      "stack (mon s' h) = rev rest @ stack (mon ?t h)"
      "\<forall>c \<in> set rest. monitor (cl s' c) = h"
      "\<forall>c. c \<notin> set rest \<longrightarrow> cl s' c = cl ?t c"
      "\<forall>m. m \<noteq> h \<and> m \<noteq> lm \<longrightarrow> mon s' m = mon ?t m"
      "monitors s' = monitors ?t"
      "selected_monitor s' = selected_monitor ?t"
    by blast
  have "migrate_clients h lm (s, d) = Some (s', 1)"
    using migrate_clients_Cons [OF Cons.prems(1), of h d] s'(1) by simp
  moreover have "monitor (cl s' c) = h"
    using s'(6) Cons.prems(2) f(4) by simp
  moreover have "\<forall>c'. c' \<notin> set (c # rest) \<longrightarrow> cl s' c' = cl s c'"
    using s'(6) f(5) by simp
  moreover have "\<forall>m. m \<noteq> h \<and> m \<noteq> lm \<longrightarrow> mon s' m = mon s m"
    using s'(7) f(6) by simp
  ultimately show ?case
    using s'(2,3,4,5,8,9) f(2,3,7,8) by simp
qed


lemma remove1_last: "distinct xs \<Longrightarrow> xs \<noteq> [] \<Longrightarrow> remove1 (last xs) xs = butlast xs"
  by (induction xs) auto

lemma cleanupmon_last:
  assumes "monitors s = h # ms" "ms \<noteq> []" "distinct (h # ms)"
  shows "cleanupmon (last (h # ms)) s = s\<lparr>monitors := butlast (h # ms)\<rparr>"
proof -
  have ne: "last (h # ms) \<noteq> h" using assms(2,3) by auto
  have "last (h # ms) \<in> set (h # ms)" by simp
  with ne obtain p where "find_previous_monitor (h # ms) (Some (last (h # ms))) = Some p"
    using find_previous_monitor_found [of "last (h # ms)" "h # ms"] by auto
  then show ?thesis
    using ne assms(1) remove1_last [OF assms(3)] by (simp add: cleanupmon_def)
qed

lemma updategeom_less_step:
  assumes wf: "chains_wf s" and ms: "monitors s = h # ms" "ms \<noteq> []"
  shows "\<exists>s1 d1. migrate_clients h (last (h # ms)) (s, d) = Some (s1, d1)
      \<and> updategeom_less (Suc k) (s, d) =
          updategeom_less k ((if last (h # ms) = selected_monitor s1 then s1\<lparr>selected_monitor := h\<rparr> else s1)
              \<lparr>monitors := butlast (h # ms)\<rparr>, d1)
      \<and> clients (mon s1 h) = rev (clients (mon s (last (h # ms)))) @ clients (mon s h)
      \<and> stack (mon s1 h) = rev (clients (mon s (last (h # ms)))) @ stack (mon s h)
      \<and> (\<forall>c \<in> set (clients (mon s (last (h # ms)))). monitor (cl s1 c) = h)
      \<and> (\<forall>c. c \<notin> set (clients (mon s (last (h # ms)))) \<longrightarrow> cl s1 c = cl s c)
      \<and> (\<forall>m. m \<noteq> h \<and> m \<noteq> last (h # ms) \<longrightarrow> mon s1 m = mon s m)
      \<and> monitors s1 = monitors s"
proof -
  let ?lm = "last (h # ms)"
  have d: "distinct (h # ms)" using wf ms(1) by (simp add: chains_wf_def)
  have ne: "?lm \<noteq> h" using ms(2) d by auto
  have lm: "?lm \<in> set (monitors s)" using ms(1) by simp
  have c1: "distinct (clients (mon s ?lm))"
    and c2: "\<forall>c \<in> set (clients (mon s ?lm)). monitor (cl s c) = ?lm"
    using wf lm unfolding chains_wf_def by blast+
  from migrate_clients_result [OF ne refl c1 c2, of d] obtain s1 where
    s1: "migrate_clients h ?lm (s, d) = Some (s1, if clients (mon s ?lm) = [] then d else 1)"
      "clients (mon s1 h) = rev (clients (mon s ?lm)) @ clients (mon s h)"
      "stack (mon s1 h) = rev (clients (mon s ?lm)) @ stack (mon s h)"
      "\<forall>c \<in> set (clients (mon s ?lm)). monitor (cl s1 c) = h"
      "\<forall>c. c \<notin> set (clients (mon s ?lm)) \<longrightarrow> cl s1 c = cl s c"
      "\<forall>m. m \<noteq> h \<and> m \<noteq> ?lm \<longrightarrow> mon s1 m = mon s m"
      "monitors s1 = monitors s"
    by blast
  let ?s2 = "if ?lm = selected_monitor s1 then s1\<lparr>selected_monitor := h\<rparr> else s1"
  have "monitors ?s2 = h # ms" using s1(7) ms(1) by simp
  then have "cleanupmon ?lm ?s2 = ?s2\<lparr>monitors := butlast (h # ms)\<rparr>"
    using ms(2) d by (rule cleanupmon_last)
  then have "updategeom_less (Suc k) (s, d) =
      updategeom_less k (?s2\<lparr>monitors := butlast (h # ms)\<rparr>, if clients (mon s ?lm) = [] then d else 1)"
    using s1(1) ms(1) by (simp add: Let_def)
  with s1 show ?thesis by blast
qed


lemma last_notin_butlast: "distinct xs \<Longrightarrow> xs \<noteq> [] \<Longrightarrow> last xs \<notin> set (butlast xs)"
  by (induction xs) (auto dest: in_set_butlastD)

lemma hd_notin_drop_butlast:
  assumes "distinct xs" "xs \<noteq> []" "0 < n"
  shows "hd xs \<notin> set (drop n (butlast xs))"
proof
  assume "hd xs \<in> set (drop n (butlast xs))"
  then have "hd xs \<in> set (drop n xs)"
    by (metis butlast_drop in_set_butlastD)
  moreover have "set (drop n xs) \<subseteq> set (drop 1 xs)"
    using assms(3) by (intro set_drop_subset_set_drop) simp
  ultimately have "hd xs \<in> set (tl xs)" by (auto simp: drop_Suc)
  with assms(1,2) show False by (cases xs) auto
qed

lemma chains_wf_after_step:
  assumes wf: "chains_wf s" and ms: "monitors s = h # ms" "ms \<noteq> []"
    and h: "clients (mon s1 h) = rev (clients (mon s (last (h # ms)))) @ clients (mon s h)"
    and mv: "\<forall>c \<in> set (clients (mon s (last (h # ms)))). monitor (cl s1 c) = h"
    and same: "\<forall>c. c \<notin> set (clients (mon s (last (h # ms)))) \<longrightarrow> cl s1 c = cl s c"
    and other: "\<forall>m. m \<noteq> h \<and> m \<noteq> last (h # ms) \<longrightarrow> mon s1 m = mon s m"
    and s3: "mon s3 = mon s1" "cl s3 = cl s1" "monitors s3 = butlast (h # ms)"
  shows "chains_wf s3"
proof -
  let ?lm = "last (h # ms)"
  let ?cs = "clients (mon s ?lm)"
  have d: "distinct (h # ms)" using wf ms(1) by (simp add: chains_wf_def)
  have ne: "?lm \<noteq> h" using ms(2) d by auto
  have own: "\<And>m c. m \<in> set (h # ms) \<Longrightarrow> c \<in> set (clients (mon s m)) \<Longrightarrow> monitor (cl s c) = m"
    using wf ms(1) unfolding chains_wf_def by auto
  have dist: "\<And>m. m \<in> set (h # ms) \<Longrightarrow> distinct (clients (mon s m))"
    using wf ms(1) unfolding chains_wf_def by auto
  have lm_in: "?lm \<in> set (h # ms)" by simp
  have notcs: "\<And>m c. m \<in> set (h # ms) \<Longrightarrow> m \<noteq> ?lm \<Longrightarrow> c \<in> set (clients (mon s m)) \<Longrightarrow> c \<notin> set ?cs"
    using own lm_in by blast
  have "distinct (butlast (h # ms))" using d by (rule distinct_butlast)
  moreover have "distinct (clients (mon s3 m)) \<and> (\<forall>c \<in> set (clients (mon s3 m)). monitor (cl s3 c) = m)"
    if m: "m \<in> set (butlast (h # ms))" for m
  proof -
    have m_in: "m \<in> set (h # ms)" using m by (rule in_set_butlastD)
    have m_ne: "m \<noteq> ?lm" using m last_notin_butlast [OF d] by auto
    show ?thesis
    proof (cases "m = h")
      case True
      have "distinct (rev ?cs @ clients (mon s h))"
        using dist [OF lm_in] dist [of h] notcs [of h] ne by auto
      moreover have "\<forall>c \<in> set (rev ?cs @ clients (mon s h)). monitor (cl s1 c) = h"
        using mv same own [of h] notcs [of h] ne by auto
      ultimately show ?thesis using True h s3 by simp
    next
      case False
      then have "mon s1 m = mon s m" using other m_ne by simp
      moreover have "\<forall>c \<in> set (clients (mon s m)). monitor (cl s1 c) = m"
        using same own [OF m_in] notcs [OF m_in m_ne] by auto
      ultimately show ?thesis using dist [OF m_in] s3 by simp
    qed
  qed
  ultimately show ?thesis using s3(3) by (simp add: chains_wf_def)
qed


lemma take_butlast_eq:
  assumes "length (butlast (h # ms)) = n + k"
  shows "take n (butlast (h # ms)) = take n (h # ms)"
  using assms by (simp add: butlast_conv_take take_take min_def del: butlast.simps)

lemma drop_snoc_last:
  assumes "length (butlast (h # ms)) = n + k"
  shows "drop n (h # ms) = drop n (butlast (h # ms)) @ [last (h # ms)]"
proof -
  have "h # ms = butlast (h # ms) @ [last (h # ms)]" by simp
  then have "drop n (h # ms) = drop n (butlast (h # ms) @ [last (h # ms)])" by simp
  also have "\<dots> = drop n (butlast (h # ms)) @ [last (h # ms)]"
    using assms by (simp only: drop_append) simp
  finally show ?thesis .
qed

lemma updategeom_less_result:
  assumes "chains_wf s" "length (monitors s) = n + k" "0 < n"
  shows "\<exists>s' d'. updategeom_less k (s, d) = Some (s', d') \<and> chains_wf s'
      \<and> monitors s' = take n (monitors s)
      \<and> clients (mon s' (hd (monitors s))) = migrated s n @ clients (mon s (hd (monitors s)))
      \<and> stack (mon s' (hd (monitors s))) = migrated s n @ stack (mon s (hd (monitors s)))"
  using assms(1,2)
proof (induction k arbitrary: s d)
  case 0
  then show ?case by (simp add: migrated_def)
next
  case (Suc k)
  from Suc.prems(2) assms(3) obtain h ms where ms: "monitors s = h # ms" "ms \<noteq> []"
    by (cases "monitors s"; cases "tl (monitors s)") auto
  let ?lm = "last (h # ms)"
  let ?cs = "clients (mon s ?lm)"
  have dm: "distinct (h # ms)" using Suc.prems(1) ms(1) by (simp add: chains_wf_def)
  from updategeom_less_step [OF Suc.prems(1) ms, of d k] obtain s1 d1 where
    s1: "updategeom_less (Suc k) (s, d) =
          updategeom_less k ((if ?lm = selected_monitor s1 then s1\<lparr>selected_monitor := h\<rparr> else s1)
              \<lparr>monitors := butlast (h # ms)\<rparr>, d1)"
      "clients (mon s1 h) = rev ?cs @ clients (mon s h)"
      "stack (mon s1 h) = rev ?cs @ stack (mon s h)"
      "\<forall>c \<in> set ?cs. monitor (cl s1 c) = h"
      "\<forall>c. c \<notin> set ?cs \<longrightarrow> cl s1 c = cl s c"
      "\<forall>m. m \<noteq> h \<and> m \<noteq> ?lm \<longrightarrow> mon s1 m = mon s m"
    by blast
  define s3 where "s3 = (if ?lm = selected_monitor s1 then s1\<lparr>selected_monitor := h\<rparr> else s1)
              \<lparr>monitors := butlast (h # ms)\<rparr>"
  have s3: "mon s3 = mon s1" "cl s3 = cl s1" "monitors s3 = butlast (h # ms)"
    by (simp_all add: s3_def)
  have wf3: "chains_wf s3"
    using Suc.prems(1) ms s1(2,4,5,6) s3 by (rule chains_wf_after_step)
  have len3: "length (monitors s3) = n + k"
    using Suc.prems(2) ms(1) s3(3) assms(3) by (simp only: length_butlast)
  from Suc.IH [OF wf3 len3, of d1] obtain s' d' where
    r: "updategeom_less k (s3, d1) = Some (s', d')" "chains_wf s'"
      "monitors s' = take n (monitors s3)"
      "clients (mon s' (hd (monitors s3))) = migrated s3 n @ clients (mon s3 (hd (monitors s3)))"
      "stack (mon s' (hd (monitors s3))) = migrated s3 n @ stack (mon s3 (hd (monitors s3)))"
    by blast
  have hd3: "hd (monitors s3) = h" using ms(2) s3(3) by (cases ms) auto
  have len3': "length (butlast (h # ms)) = n + k"
    using len3 s3(3) by simp
  have tk: "take n (monitors s3) = take n (monitors s)"
    using take_butlast_eq [OF len3'] s3(3) ms(1) by simp
  have dr: "drop n (h # ms) = drop n (butlast (h # ms)) @ [?lm]"
    using len3' by (rule drop_snoc_last)
  have same_mon: "mon s1 m = mon s m" if "m \<in> set (drop n (butlast (h # ms)))" for m
  proof -
    have "m \<noteq> h" using that hd_notin_drop_butlast [OF dm _ assms(3)] by auto
    moreover have "m \<noteq> ?lm"
      using that last_notin_butlast [OF dm] by (auto dest: in_set_dropD)
    ultimately show ?thesis using s1(6) by simp
  qed
  have mg: "migrated s3 n @ rev ?cs = migrated s n"
    using same_mon by (simp add: migrated_def s3 ms(1) dr cong: map_cong)
  have "updategeom_less (Suc k) (s, d) = Some (s', d')"
    using s1(1) r(1) by (simp add: s3_def)
  moreover have "monitors s' = take n (monitors s)" using r(3) tk by simp
  moreover have "clients (mon s' (hd (monitors s))) = migrated s n @ clients (mon s (hd (monitors s)))"
    using r(4) hd3 s3(1) s1(2) mg ms(1) by (simp flip: append_assoc)
  moreover have "stack (mon s' (hd (monitors s))) = migrated s n @ stack (mon s (hd (monitors s)))"
    using r(5) hd3 s3(1) s1(3) mg ms(1) by (simp flip: append_assoc)
  ultimately show ?case using r(2) by blast
qed


lemma updategeom_fewer_result:
  assumes "chains_wf s" "0 < n" "n < length (monitors s)"
  shows "\<exists>s' d. updategeom_fewer n s = Some (s', d) \<and> chains_wf s'
      \<and> monitors s' = take n (monitors s)
      \<and> clients (mon s' (hd (monitors s))) = migrated s n @ clients (mon s (hd (monitors s)))
      \<and> stack (mon s' (hd (monitors s))) = migrated s n @ stack (mon s (hd (monitors s)))"
proof -
  have "length (monitors s) = n + (length (monitors s) - n)" using assms(3) by simp
  from updategeom_less_result [OF assms(1) this assms(2), of 0]
  show ?thesis by (simp add: updategeom_fewer_def)
qed

text \<open>
  Claim C2, amended. When the screen count \<open>n\<close> (at least 1) is below the monitor
  count, the branch of \<^verbatim>\<open>updategeom\<close> for fewer screens ends, having repeatedly taken
  the tail monitor, moved every client on it to the head monitor and released the
  tail: the first \<open>n\<close> monitors remain. The migrated clients stand at the front of the
  head monitor's client list and of its focus stack, before the clients the head
  monitor had, in the reverse of the order of the removed monitor's client list (the
  last removed monitor's clients innermost); the order they had on the removed
  monitor's focus stack plays no part.
\<close>

theorem updategeom_fewer_migrates:
  assumes "chains_wf s" "0 < n" "n < length (monitors s)"
  shows "\<exists>s' d. updategeom_fewer n s = Some (s', d)
      \<and> monitors s' = take n (monitors s)
      \<and> clients (mon s' (hd (monitors s))) = migrated s n @ clients (mon s (hd (monitors s)))
      \<and> stack (mon s' (hd (monitors s))) = migrated s n @ stack (mon s (hd (monitors s)))
      \<and> (\<forall>c \<in> set (migrated s n). monitor (cl s' c) = hd (monitors s))"
proof -
  from updategeom_fewer_result [OF assms] obtain s' d where
    r: "updategeom_fewer n s = Some (s', d)" "chains_wf s'"
      "monitors s' = take n (monitors s)"
      "clients (mon s' (hd (monitors s))) = migrated s n @ clients (mon s (hd (monitors s)))"
      "stack (mon s' (hd (monitors s))) = migrated s n @ stack (mon s (hd (monitors s)))"
    by blast
  have "hd (monitors s) \<in> set (monitors s')"
    using r(3) assms(2,3) by (cases "monitors s"; cases n) auto
  then have "\<forall>c \<in> set (clients (mon s' (hd (monitors s)))). monitor (cl s' c) = hd (monitors s)"
    using r(2) unfolding chains_wf_def by blast
  then have "\<forall>c \<in> set (migrated s n). monitor (cl s' c) = hd (monitors s)"
    using r(4) by simp
  with r show ?thesis by blast
qed

lemma ex_wm2_facts:
  "chains_wf ex_wm2" "0 < (1::nat)" "1 < length (monitors ex_wm2)"
  "hd (monitors ex_wm2) = 0" "migrated ex_wm2 1 = [2, 1]"
  "stack (mon ex_wm2 0) = []" "clients (mon ex_wm2 0) = []" "stack (mon ex_wm2 1) = [1, 2]"
  "take 1 (monitors ex_wm2) = [0]"
  by (simp_all add: chains_wf_def migrated_def ex_wm2_def ex_wm_def ex_monitor_def ex_client_def)

theorem updategeom_fewer_migrates_witness:
  "\<exists>s' d. updategeom_fewer 1 ex_wm2 = Some (s', d) \<and> monitors s' = [0]
      \<and> clients (mon s' 0) = [2, 1] \<and> stack (mon s' 0) = [2, 1]
      \<and> monitor (cl s' 1) = 0 \<and> monitor (cl s' 2) = 0"
proof -
  from updategeom_fewer_migrates [OF ex_wm2_facts(1,2,3)] obtain s' d where
    r: "updategeom_fewer 1 ex_wm2 = Some (s', d)"
      "monitors s' = take 1 (monitors ex_wm2)"
      "clients (mon s' (hd (monitors ex_wm2))) = migrated ex_wm2 1 @ clients (mon ex_wm2 (hd (monitors ex_wm2)))"
      "stack (mon s' (hd (monitors ex_wm2))) = migrated ex_wm2 1 @ stack (mon ex_wm2 (hd (monitors ex_wm2)))"
      "\<forall>c \<in> set (migrated ex_wm2 1). monitor (cl s' c) = hd (monitors ex_wm2)"
    by blast
  have "monitors s' = [0]" using r(2) by (simp only: ex_wm2_facts)
  moreover have "clients (mon s' 0) = [2, 1]"
    using r(3) by (simp only: ex_wm2_facts append_Nil2)
  moreover have "stack (mon s' 0) = [2, 1]"
    using r(4) by (simp only: ex_wm2_facts append_Nil2)
  moreover have "\<forall>c \<in> set [2, 1]. monitor (cl s' c) = 0"
    using r(5) by (simp only: ex_wm2_facts)
  then have "monitor (cl s' 1) = 0 \<and> monitor (cl s' 2) = 0" by simp
  ultimately show ?thesis using r(1) by blast
qed

text \<open>
  Claim C2 as stated fails: the second monitor has the focus stack \<open>[1, 2]\<close> (and the
  client list \<open>[1, 2]\<close>); after it disappeared the head monitor's focus stack is
  \<open>[2, 1]\<close>.
\<close>

theorem updategeom_fewer_reverses_stack:
  "stack (mon ex_wm2 1) = [1, 2] \<and> head_stack (updategeom_fewer 1 ex_wm2) 0 = Some [2, 1]"
proof -
  from updategeom_fewer_result [OF ex_wm2_facts(1,2,3)] obtain s' d where
    r: "updategeom_fewer 1 ex_wm2 = Some (s', d)"
      "stack (mon s' (hd (monitors ex_wm2))) = migrated ex_wm2 1 @ stack (mon ex_wm2 (hd (monitors ex_wm2)))"
    by blast
  have "stack (mon s' 0) = [2, 1]"
    using r(2) by (simp only: ex_wm2_facts append_Nil2)
  then have "head_stack (updategeom_fewer 1 ex_wm2) 0 = Some [2, 1]"
    unfolding head_stack_def r(1) by simp
  then show ?thesis using ex_wm2_facts(8) by (rule conjI [rotated])
qed

subsection \<open>Tags of clients\<close>

lemma tags_ok_mask: "t AND TAGMASK cfg \<noteq> 0 \<Longrightarrow> tags_ok cfg (t AND TAGMASK cfg)"
  by (simp add: tags_ok_def and.assoc)

lemma tags_ok_tag_bit: "tag_bit cfg i \<noteq> 0 \<Longrightarrow> tags_ok cfg (tag_bit cfg i)"
  unfolding tag_bit_def by (rule tags_ok_mask)

lemma tags_ok_xor:
  assumes "tags_ok cfg t" "t XOR tag_bit cfg i \<noteq> 0"
  shows "tags_ok cfg (t XOR tag_bit cfg i)"
proof -
  have "(t XOR tag_bit cfg i) AND TAGMASK cfg = (t AND TAGMASK cfg) XOR (tag_bit cfg i AND TAGMASK cfg)"
    by (simp add: bit.conj_xor_distrib2)
  also have "\<dots> = t XOR tag_bit cfg i"
    using assms(1) by (simp add: tags_ok_def tag_bit_def and.assoc)
  finally show ?thesis using assms(2) by (simp add: tags_ok_def)
qed

lemma tags_ok_nonzero: "tags_ok cfg t \<Longrightarrow> t AND TAGMASK cfg \<noteq> 0"
  by (simp add: tags_ok_def)

lemma current_tags_ok: "mon_tags_ok cfg M \<Longrightarrow> tags_ok cfg (current_tags M)"
  using word_lt_2 [of "selected_tags_set M"]
  by (auto simp: mon_tags_ok_def tagset_wf_def current_tags_def)

lemma mon_tags_ok_cong:
  "tagset M' = tagset M \<Longrightarrow> selected_tags_set M' = selected_tags_set M \<Longrightarrow>
   mon_tags_ok cfg M' = mon_tags_ok cfg M"
  by (simp add: mon_tags_ok_def tagset_wf_def)

lemma tags_inv_cong:
  assumes "\<And>m. tagset (mon s' m) = tagset (mon s m)"
    and "\<And>m. selected_tags_set (mon s' m) = selected_tags_set (mon s m)"
    and "\<And>c. tags (cl s' c) = tags (cl s c)"
  shows "tags_inv cfg C s' = tags_inv cfg C s"
  using assms mon_tags_ok_cong [of "mon s' _" "mon s _" cfg] by (simp add: tags_inv_def)

lemma tags_inv_focus: "tags_inv cfg C (focus co s) = tags_inv cfg C s"
  by (rule tags_inv_cong) (rule stackless_eqD [OF stackless_focus])+

lemma tags_inv_arrange_wm: "tags_inv cfg C (arrange_wm cfg' mo s) = tags_inv cfg C s"
  by (rule tags_inv_cong) (simp_all add: mon_arrange_wm nongeom_eqD(7) [OF nongeom_arrange_wm])


lemma tags_inv_upd_cl_tags:
  assumes "tags_inv cfg C s" "c \<in> C \<Longrightarrow> tags_ok cfg t"
  shows "tags_inv cfg C (upd_cl c (\<lambda>K. K\<lparr>tags := t\<rparr>) s)"
  using assms by (auto simp: tags_inv_def upd_cl_def)

lemma tags_inv_upd_cl_monitor:
  "tags_inv cfg C (upd_cl c (\<lambda>K. K\<lparr>monitor := m\<rparr>) s) = tags_inv cfg C s"
  by (rule tags_inv_cong) (simp_all add: upd_cl_def)

lemma tags_inv_upd_mon:
  assumes "tags_inv cfg C s" "mon_tags_ok cfg (mon s m) \<Longrightarrow> mon_tags_ok cfg (f (mon s m))"
  shows "tags_inv cfg C (upd_mon m f s)"
  using assms by (auto simp: tags_inv_def upd_mon_def)

lemma tags_inv_detach_client: "tags_inv cfg C (detach_client c s) = tags_inv cfg C s"
  by (rule tags_inv_cong) (simp_all add: detach_client_def upd_mon_def)

lemma tags_inv_detachstack: "tags_inv cfg C (detachstack c s) = tags_inv cfg C s"
  by (rule tags_inv_cong) (simp_all add: detachstack_def Let_def upd_mon_def)

lemma tags_inv_attach: "tags_inv cfg C (attach c s) = tags_inv cfg C s"
  by (rule tags_inv_cong) (simp_all add: attach_def upd_mon_def)

lemma tags_inv_attachstack: "tags_inv cfg C (attachstack c s) = tags_inv cfg C s"
  by (rule tags_inv_cong) (simp_all add: attachstack_def upd_mon_def)

lemma mon_tags_ok_swap: "mon_tags_ok cfg M \<Longrightarrow> mon_tags_ok cfg (swap_selected_tags M)"
  using word_lt_2 [of "selected_tags_set M"]
  by (auto simp: mon_tags_ok_def tagset_wf_def swap_selected_tags_def)

lemma mon_tags_ok_set_tags:
  "mon_tags_ok cfg M \<Longrightarrow> tags_ok cfg t \<Longrightarrow> mon_tags_ok cfg (set_tags t M)"
  using word_lt_2 [of "selected_tags_set M"]
  by (auto simp: mon_tags_ok_def tagset_wf_def set_tags_def)

lemma mon_tags_ok_set_layout_index:
  "mon_tags_ok cfg (set_layout_index i M) = mon_tags_ok cfg M"
  by (rule mon_tags_ok_cong) (simp_all add: set_layout_index_def)

lemma tags_inv_tag: "tags_inv cfg C s \<Longrightarrow> tags_inv cfg C (tag cfg i s)"
  by (simp add: tag_def Let_def tags_inv_arrange_wm tags_inv_focus tags_inv_upd_cl_tags
      tags_ok_tag_bit split: option.splits)

lemma tags_inv_toggletag:
  assumes "tags_inv cfg C s"
  shows "tags_inv cfg C (toggletag cfg i s)"
proof (cases "selected_client (mon s (selected_monitor s))")
  case None
  with assms show ?thesis by (simp add: toggletag_def)
next
  case (Some c)
  show ?thesis
  proof (cases "tags (cl s c) XOR tag_bit cfg i = 0")
    case True
    with Some assms show ?thesis by (simp add: toggletag_def)
  next
    case False
    have "c \<in> C \<Longrightarrow> tags_ok cfg (tags (cl s c) XOR tag_bit cfg i)"
      using assms False by (intro tags_ok_xor) (simp_all add: tags_inv_def)
    with assms have "tags_inv cfg C (upd_cl c (\<lambda>K. K\<lparr>tags := tags (cl s c) XOR tag_bit cfg i\<rparr>) s)"
      by (rule tags_inv_upd_cl_tags)
    with Some False show ?thesis
      by (simp add: toggletag_def Let_def tags_inv_arrange_wm tags_inv_focus)
  qed
qed

lemma tags_inv_sendmon:
  assumes "tags_inv cfg C s"
  shows "tags_inv cfg C (sendmon cfg c m s)"
proof (cases "monitor (cl s c) = m")
  case True
  with assms show ?thesis by (simp add: sendmon_def)
next
  case False
  define s2 where "s2 = upd_cl c (\<lambda>K. K\<lparr>monitor := m\<rparr>) (detachstack c (detach_client c s))"
  have i2: "tags_inv cfg C s2"
    using assms
    by (simp add: s2_def tags_inv_upd_cl_monitor tags_inv_detachstack tags_inv_detach_client)
  then have "tags_ok cfg (current_tags (mon s2 m))"
    by (intro current_tags_ok) (simp add: tags_inv_def)
  with i2 have "tags_inv cfg C (upd_cl c (\<lambda>K. K\<lparr>tags := current_tags (mon s2 m)\<rparr>) s2)"
    by (intro tags_inv_upd_cl_tags)
  with False show ?thesis
    by (simp add: sendmon_def Let_def tags_inv_arrange_wm tags_inv_focus tags_inv_attach
        tags_inv_attachstack flip: s2_def)
qed

lemma tags_inv_view:
  assumes "tags_inv cfg C s"
  shows "tags_inv cfg C (view cfg i s)"
proof (cases "tag_bit cfg i = current_tags (mon s (selected_monitor s))")
  case True
  with assms show ?thesis by (simp add: view_def)
next
  case False
  define s1 where "s1 = upd_mon (selected_monitor s) swap_selected_tags s"
  define s2 where "s2 = (if tag_bit cfg i \<noteq> 0
     then upd_mon (selected_monitor s1) (set_tags (tag_bit cfg i)) s1 else s1)"
  define s3 where "s3 = upd_mon (selected_monitor s2) (set_layout_index i) s2"
  have 1: "tags_inv cfg C s1"
    unfolding s1_def using assms by (rule tags_inv_upd_mon) (rule mon_tags_ok_swap)
  have 2: "tags_inv cfg C s2"
    unfolding s2_def using 1
    by (auto intro!: tags_inv_upd_mon mon_tags_ok_set_tags tags_ok_tag_bit)
  have 3: "tags_inv cfg C s3"
    unfolding s3_def using 2
    by (rule tags_inv_upd_mon) (simp add: mon_tags_ok_set_layout_index)
  have "view cfg i s = arrange_wm cfg (Some (selected_monitor (focus None s3))) (focus None s3)"
    using False by (simp add: view_def Let_def s1_def s2_def s3_def)
  with 3 show ?thesis by (simp add: tags_inv_arrange_wm tags_inv_focus)
qed

lemma tags_inv_toggleview:
  assumes "tags_inv cfg C s"
  shows "tags_inv cfg C (toggleview cfg i s)"
proof (cases "current_tags (mon s (selected_monitor s)) XOR tag_bit cfg i = 0")
  case True
  with assms show ?thesis by (simp add: toggleview_def)
next
  case False
  have ok: "mon_tags_ok cfg (mon s (selected_monitor s))"
    using assms by (simp add: tags_inv_def)
  then have "tags_ok cfg (current_tags (mon s (selected_monitor s)) XOR tag_bit cfg i)"
    using False by (intro tags_ok_xor current_tags_ok)
  with ok have "mon_tags_ok cfg (set_tags (current_tags (mon s (selected_monitor s)) XOR tag_bit cfg i)
      (mon s (selected_monitor s)))"
    by (rule mon_tags_ok_set_tags)
  with assms have "tags_inv cfg C (upd_mon (selected_monitor s)
      (set_tags (current_tags (mon s (selected_monitor s)) XOR tag_bit cfg i)) s)"
    by (intro tags_inv_upd_mon)
  with False show ?thesis
    by (simp add: toggleview_def Let_def tags_inv_arrange_wm tags_inv_focus)
qed

lemma tags_inv_do_op: "tags_inv cfg C s \<Longrightarrow> tags_inv cfg C (do_op cfg p s)"
  by (cases p)
    (simp_all add: tags_inv_tag tags_inv_toggletag tags_inv_sendmon tags_inv_view tags_inv_toggleview)

lemma tags_inv_run_ops: "tags_inv cfg C s \<Longrightarrow> tags_inv cfg C (run_ops cfg ps s)"
  by (induction ps arbitrary: s) (simp_all add: tags_inv_do_op)


lemma TAGMASK_mask: "TAGMASK cfg = mask (ntags cfg)"
  by (simp add: TAGMASK_def mask_eq_exp_minus_1 push_bit_eq_mult)

lemma tags_ok_1: "0 < ntags cfg \<Longrightarrow> tags_ok cfg 1"
  by (simp add: tags_ok_def TAGMASK_mask take_bit_eq_mask [symmetric])

text \<open>A monitor as \<^verbatim>\<open>createmon\<close> makes it has its tag-sets in order.\<close>

lemma mon_tags_ok_createmon: "0 < ntags cfg \<Longrightarrow> mon_tags_ok cfg (createmon cfg)"
  by (simp add: mon_tags_ok_def tagset_wf_def createmon_def tags_ok_1)

lemma applyrules_loop_frame:
  "mon (applyrules_loop rs k i c s) = mon s"
  "c' \<noteq> c \<Longrightarrow> cl (applyrules_loop rs k i c s) c' = cl s c'"
  by (induction rs arbitrary: s) (simp_all add: Let_def upd_cl_def split: option.splits)

lemma tags_inv_applyrules:
  assumes "tags_inv cfg C s"
  shows "tags_inv cfg (insert c C) (applyrules cfg rc rn c s)"
proof -
  define k where "k = (case rc of Some k \<Rightarrow> k | None \<Rightarrow> ''broken'')"
  define i where "i = (case rn of Some i \<Rightarrow> i | None \<Rightarrow> ''broken'')"
  define s2 where "s2 = upd_cl c (\<lambda>K. K\<lparr>tags := 0\<rparr>) (upd_cl c (\<lambda>K. K\<lparr>isfloating := 0\<rparr>) s)"
  define s3 where "s3 = applyrules_loop (rules cfg) k i c s2"
  define t where "t = (if tags (cl s3 c) AND TAGMASK cfg \<noteq> 0 then tags (cl s3 c) AND TAGMASK cfg
                       else current_tags (mon s3 (monitor (cl s3 c))))"
  have a: "applyrules cfg rc rn c s = upd_cl c (\<lambda>K. K\<lparr>tags := t\<rparr>) s3"
    by (simp add: applyrules_def Let_def k_def i_def s2_def s3_def t_def upd_cl_def)
  have m3: "mon s3 = mon s"
    by (simp add: s3_def s2_def applyrules_loop_frame upd_cl_def)
  have c3: "\<And>c'. c' \<noteq> c \<Longrightarrow> cl s3 c' = cl s c'"
    by (simp add: s3_def s2_def applyrules_loop_frame upd_cl_def)
  have mons: "\<And>m. mon_tags_ok cfg (mon s m)"
    using assms by (simp add: tags_inv_def)
  have "tags_ok cfg t"
    using mons by (simp add: t_def tags_ok_mask current_tags_ok m3)
  then show ?thesis
    using assms c3 by (auto simp: a tags_inv_def upd_cl_def m3)
qed

text \<open>
  Claim C8. Take a state in which the tag-sets of every monitor are in order (as
  \<^verbatim>\<open>createmon\<close> makes them, and as \<^verbatim>\<open>view\<close> and \<^verbatim>\<open>toggleview\<close> keep them) and
  in which the clients of a set \<open>C\<close>, those managed so far, have tags in order. For the
  client \<open>c\<close> that \<^verbatim>\<open>applyrules\<close> is called for, \<open>tags & TAGMASK\<close> is not zero
  immediately after \<^verbatim>\<open>applyrules\<close>, and for \<open>c\<close> and every client of \<open>C\<close> it is not
  zero after any run of the commands that modify tags (\<^verbatim>\<open>tag\<close>, \<^verbatim>\<open>toggletag\<close>,
  \<^verbatim>\<open>sendmon\<close> with any arguments, interleaved with \<^verbatim>\<open>view\<close> and \<^verbatim>\<open>toggleview\<close>).
\<close>

theorem tags_never_empty:
  assumes "tags_inv cfg C s"
  shows "tags (cl (applyrules cfg rc rn c s) c) AND TAGMASK cfg \<noteq> 0
       \<and> (\<forall>c' \<in> insert c C.
             tags (cl (run_ops cfg ps (applyrules cfg rc rn c s)) c') AND TAGMASK cfg \<noteq> 0)"
proof -
  have a: "tags_inv cfg (insert c C) (applyrules cfg rc rn c s)"
    using assms by (rule tags_inv_applyrules)
  then have "tags_inv cfg (insert c C) (run_ops cfg ps (applyrules cfg rc rn c s))"
    by (rule tags_inv_run_ops)
  with a show ?thesis
    by (simp add: tags_inv_def tags_ok_nonzero)
qed

lemma ex_tags_inv: "tags_inv ex_cfg {} ex_wm"
  by (simp add: tags_inv_def mon_tags_ok_def tagset_wf_def tags_ok_def TAGMASK_def
      ex_cfg_def ex_wm_def ex_monitor_def)

theorem tags_never_empty_witness:
  "tags (cl (applyrules ex_cfg None None 0 ex_wm) 0) AND TAGMASK ex_cfg \<noteq> 0
   \<and> tags (cl (run_ops ex_cfg [Tag 2, ToggleTag 2, ToggleTag 3, SendMon 0 1, View 4, ToggleView 4]
        (applyrules ex_cfg None None 0 ex_wm)) 0) AND TAGMASK ex_cfg \<noteq> 0"
  using tags_never_empty [OF ex_tags_inv, of None None 0
      "[Tag 2, ToggleTag 2, ToggleTag 3, SendMon 0 1, View 4, ToggleView 4]"]
  by simp

end
